theory Spec2Isabelle
  imports Complex_Main
begin

section \<open>One-dimensional finite elements with Lagrange bases (lab1/FEM1.h)\<close>

text \<open>
  The class \<open>FEM<1>\<close> is embedded function by function. A C++ \<open>double\<close> is a HOL
  \<open>real\<close>: arithmetic is exact, rounding is not modelled, and a comparison \<open>==\<close> of
  two doubles is equality of reals. An \<open>unsigned int\<close> is a \<open>nat\<close> (the orders, node
  numbers and degree-of-freedom numbers of the program stay far below \<open>2^32\<close>). The
  members \<open>basisFunctionOrder\<close> and \<open>prob\<close> are doubles that only ever hold the
  constructor's unsigned arguments, so they are naturals here.

  Every way the program stops is a value of \<open>error\<close>: the two \<open>exit(0)\<close> calls after an
  error message, the \<open>assert\<close> in \<open>basis_gradient\<close>, an index outside a vector and
  the read of a local variable that was never assigned (both undefined behaviour in
  C++, kept apart here so that no theorem rests on them).
\<close>

datatype error =
    ProblemNumberExit      \<comment> \<open>"Error: problem number should be 1 or 2." then exit(0)\<close>
  | NodeNumberExit nat     \<comment> \<open>"Error: you input node number ..." then exit(0)\<close>
  | AssertionFailed        \<comment> \<open>assert(node==1) in basis_gradient\<close>
  | OutOfRange             \<comment> \<open>operator[] beyond the end of a vector\<close>
  | Uninitialised          \<comment> \<open>a local variable read before any assignment\<close>

definition bind_err :: "error + 'a \<Rightarrow> ('a \<Rightarrow> error + 'b) \<Rightarrow> error + 'b" where
  "bind_err m k = (case m of Inl e \<Rightarrow> Inl e | Inr v \<Rightarrow> k v)"

text \<open>A counted \<open>for\<close> loop whose body may stop the program.\<close>

fun for_loop :: "'i list \<Rightarrow> ('i \<Rightarrow> 'a \<Rightarrow> error + 'a) \<Rightarrow> 'a \<Rightarrow> error + 'a" where
  "for_loop [] body a = Inr a"
| "for_loop (i # is) body a = bind_err (body i a) (for_loop is body)"

definition vec_at :: "'a list \<Rightarrow> nat \<Rightarrow> error + 'a" where
  "vec_at xs i = (if i < length xs then Inr (xs ! i) else Inl OutOfRange)"

subsection \<open>Reference basis evaluator\<close>

text \<open>
  \<open>xi_at_node\<close>, \<open>basis_function\<close> and \<open>basis_gradient\<close> read one member,
  \<open>basisFunctionOrder\<close>; it is their first argument here.
\<close>

definition xi_at_node :: "nat \<Rightarrow> nat \<Rightarrow> error + real" where
  "xi_at_node order dealNode =
     (if dealNode = 0 then Inr (- 1)
      else if dealNode = 1 then Inr 1
      else if dealNode \<le> order then Inr (- 1 + 2 * (real dealNode - 1) / real order)
      else Inl (NodeNumberExit dealNode))"

text \<open>
  The body of the loop of \<open>basis_function\<close>:
  \<open>if (i != node) value *= (xi - xi_at_node(i)) / (xi_at_node(node) - xi_at_node(i))\<close>.
\<close>

definition basis_function_step :: "nat \<Rightarrow> nat \<Rightarrow> real \<Rightarrow> nat \<Rightarrow> real \<Rightarrow> error + real" where
  "basis_function_step order node xi i val =
     (if i \<noteq> node then
        bind_err (xi_at_node order i) (\<lambda>xi_i.
        bind_err (xi_at_node order node) (\<lambda>xi_n.
          Inr (val * ((xi - xi_i) / (xi_n - xi_i)))))
      else Inr val)"

definition basis_function :: "nat \<Rightarrow> nat \<Rightarrow> real \<Rightarrow> error + real" where
  "basis_function order node xi =
     for_loop [0..<order + 1] (basis_function_step order node xi) 1"

text \<open>
  \<open>basis_gradient\<close>: three \<open>if\<close> blocks on the order, of which at most one runs, around
  \<open>value = 0.0\<close>. In the blocks for order 2 and 3, \<open>xi_at_node(node)\<close> is called first and
  stops the program for a node beyond the order, so the later \<open>if (node==k)\<close> tests
  always find their node; \<open>other_nodes\<close> lists the nodes they pick, in their order.
\<close>

definition other_nodes2 :: "nat \<Rightarrow> (nat \<times> nat) option" where
  "other_nodes2 node =
     (if node = 0 then Some (1, 2)
      else if node = 1 then Some (0, 2)
      else if node = 2 then Some (0, 1)
      else None)"

definition other_nodes3 :: "nat \<Rightarrow> (nat \<times> nat \<times> nat) option" where
  "other_nodes3 node =
     (if node = 0 then Some (1, 2, 3)
      else if node = 1 then Some (0, 2, 3)
      else if node = 2 then Some (0, 1, 3)
      else if node = 3 then Some (0, 1, 2)
      else None)"

definition basis_gradient :: "nat \<Rightarrow> nat \<Rightarrow> real \<Rightarrow> error + real" where
  "basis_gradient order node xi =
     (if order = 1 then
        (if node = 0 then Inr (- 1 / 2)
         else if node = 1 then Inr (1 / 2)
         else Inl AssertionFailed)
      else if order = 2 then
        bind_err (xi_at_node order node) (\<lambda>xi0.
          case other_nodes2 node of
            None \<Rightarrow> Inl (NodeNumberExit node)
          | Some (n1, n2) \<Rightarrow>
              bind_err (xi_at_node order n1) (\<lambda>xi1.
              bind_err (xi_at_node order n2) (\<lambda>xi2.
                let denum = (xi0 - xi1) * (xi0 - xi2)
                in Inr ((xi - xi2) / denum + (xi - xi1) / denum))))
      else if order = 3 then
        bind_err (xi_at_node order node) (\<lambda>xi0.
          case other_nodes3 node of
            None \<Rightarrow> Inl (NodeNumberExit node)
          | Some (n1, n2, n3) \<Rightarrow>
              bind_err (xi_at_node order n1) (\<lambda>xi1.
              bind_err (xi_at_node order n2) (\<lambda>xi2.
              bind_err (xi_at_node order n3) (\<lambda>xi3.
                let denum = (xi0 - xi1) * (xi0 - xi2) * (xi0 - xi3)
                in Inr ((xi - xi2) * (xi - xi3) / denum
                        + (xi - xi1) * (xi - xi3) / denum
                        + (xi - xi1) * (xi - xi2) / denum)))))
      else Inr 0)"

subsection \<open>The object and its set-up\<close>

text \<open>
  The members of \<open>FEM<1>\<close> that the numerical core reads or writes. The one-letter
  members \<open>L\<close>, \<open>E\<close>, \<open>f\<close>, \<open>h\<close>, \<open>K\<close>, \<open>D\<close>, \<open>F\<close> carry the suffix \<open>_m\<close>. The mesh and
  the degree-of-freedom handler belong to deal.II; what the program asks of them is
  kept in two fields: \<open>cells\<close>, for every active cell the vector that
  \<open>get_dof_indices\<close> fills (global number by local node), in iteration order, and
  \<open>n_dofs\<close>, the value of \<open>dof_handler.n_dofs()\<close>. The sparse matrix \<open>K\<close> is a function
  from row and column to entry.
\<close>

record fem_state =
  basisFunctionOrder :: nat
  prob :: nat
  L_m :: real
  g1 :: real
  g2 :: real
  E_m :: real
  f_m :: real
  h_m :: real
  quadRule :: nat
  quad_points :: "real list"
  quad_weight :: "real list"
  nodeLocation :: "real list"
  boundary_values :: "nat \<rightharpoonup> real"
  K_m :: "nat \<Rightarrow> nat \<Rightarrow> real"
  D_m :: "real list"
  F_m :: "real list"
  cells :: "nat list list"
  n_dofs :: nat

text \<open>
  The constructor. The scalar members are not initialised by it: they keep whatever
  the memory \<open>mem\<close> of the new object holds, until \<open>generate_mesh\<close> and \<open>setup_system\<close>
  assign them. The containers are default-constructed empty. The order is stored
  before the problem number is tested, and is not tested itself. The member \<open>fe\<close> is
  built from the order by deal.II's \<open>FE_Q\<close>; that library call is not part of the model.
\<close>

definition FEM :: "nat \<Rightarrow> nat \<Rightarrow> fem_state \<Rightarrow> error + fem_state" where
  "FEM order problem mem =
     (let s = mem\<lparr>quad_points := [], quad_weight := [], nodeLocation := [],
                  boundary_values := Map.empty, K_m := (\<lambda>i j. 0), D_m := [], F_m := [],
                  cells := [], n_dofs := 0, basisFunctionOrder := order\<rparr>
      in if problem = 1 \<or> problem = 2 then Inr (s\<lparr>prob := problem\<rparr>)
         else Inl ProblemNumberExit)"

text \<open>\<open>generate_mesh\<close> fixes the domain \<open>[0, L]\<close> with \<open>L = 0.1\<close>; the grid is deal.II's.\<close>

definition generate_mesh :: "nat \<Rightarrow> fem_state \<Rightarrow> fem_state" where
  "generate_mesh numberOfElements s = s\<lparr>L_m := 0.1\<rparr>"

text \<open>
  \<open>define_boundary_conds\<close>: the loop over \<open>globalNode < totalNodes\<close>, with the two
  independent \<open>if\<close> statements of its body, writing into the map \<open>boundary_values\<close>.
\<close>

definition boundary_step :: "fem_state \<Rightarrow> nat \<Rightarrow> (nat \<rightharpoonup> real) \<Rightarrow> error + (nat \<rightharpoonup> real)" where
  "boundary_step s globalNode bv =
     bind_err (vec_at (nodeLocation s) globalNode) (\<lambda>x.
       let bv1 = (if x = 0 then bv(globalNode \<mapsto> g1 s) else bv);
           bv2 = (if x = L_m s
                  then (if prob s = 1 then bv1(globalNode \<mapsto> g2 s) else bv1)
                  else bv1)
       in Inr bv2)"

definition define_boundary_conds :: "fem_state \<Rightarrow> error + fem_state" where
  "define_boundary_conds s =
     (let totalNodes = n_dofs s
      in bind_err (for_loop [0..<totalNodes] (boundary_step s) (boundary_values s))
           (\<lambda>bv. Inr (s\<lparr>boundary_values := bv\<rparr>)))"

text \<open>
  \<open>setup_system\<close>. \<open>distribute_dofs\<close> and \<open>map_dofs_to_support_points\<close> are deal.II's:
  the connectivity \<open>dof_cells\<close> and the support points \<open>dof_coords\<close> (their
  x-coordinates) that they produce are arguments. \<open>nodeLocation\<close> is resized to
  \<open>n_dofs\<close> and filled from \<open>dof_coords\<close>, which has \<open>n_dofs\<close> entries.
\<close>

definition setup_system :: "nat list list \<Rightarrow> real list \<Rightarrow> fem_state \<Rightarrow> error + fem_state" where
  "setup_system dof_cells dof_coords s =
     (let s1 = s\<lparr>g1 := 0, g2 := 0.001, E_m := 100000000000, f_m := 100000000000,
                 h_m := 10000000000,
                 cells := dof_cells, n_dofs := length dof_coords,
                 nodeLocation := dof_coords\<rparr>
      in bind_err (define_boundary_conds s1) (\<lambda>s2.
           Inr (s2\<lparr>K_m := (\<lambda>i j. 0),
                   F_m := replicate (n_dofs s2) 0,
                   D_m := replicate (n_dofs s2) 0,
                   quadRule := 3,
                   quad_points := [- 0.7745966692414834, 0.0, 0.7745966692414834],
                   quad_weight := [0.5555555555555557, 0.8888888888888888,
                                   0.5555555555555557]\<rparr>)))"

subsection \<open>Element assembly\<close>

text \<open>
  Modelled from the spec: \<open>fe.dofs_per_cell\<close> is a member of deal.II's \<open>FESystem\<close>, built by
  the constructor from \<open>FE_Q<1>(order)\<close>; the local-to-global map of an element has
  length order + 1.
\<close>

definition dofs_per_cell :: "fem_state \<Rightarrow> nat" where
  "dofs_per_cell s = basisFunctionOrder s + 1"

text \<open>
  The innermost loop of the load vector: \<open>x = 0\<close>, then for every local node \<open>B\<close>,
  \<open>x += nodeLocation[local_dof_indices[B]] * basis_function(B, quad_points[q])\<close>.
\<close>

definition x_step :: "fem_state \<Rightarrow> nat list \<Rightarrow> real \<Rightarrow> nat \<Rightarrow> real \<Rightarrow> error + real" where
  "x_step s local_dof_indices xi_q B x =
     bind_err (vec_at local_dof_indices B) (\<lambda>gB.
     bind_err (vec_at (nodeLocation s) gB) (\<lambda>xB.
     bind_err (basis_function (basisFunctionOrder s) B xi_q) (\<lambda>NB.
       Inr (x + xB * NB))))"

text \<open>
  The body of the loop over \<open>q\<close> for the local node \<open>A\<close>: the local \<open>f\<close> (which hides
  the member \<open>f\<close>) is \<open>1.*x\<close>, and
  \<open>Flocal[A] += h_e/2.* basis_function(A,quad_points[q]) * quad_weight[q] * f\<close>.
\<close>

definition load_step :: "fem_state \<Rightarrow> nat list \<Rightarrow> real \<Rightarrow> nat \<Rightarrow> nat \<Rightarrow> real list \<Rightarrow> error + real list" where
  "load_step s local_dof_indices h_e A q Flocal =
     bind_err (vec_at (quad_points s) q) (\<lambda>xi_q.
     bind_err (for_loop [0..<dofs_per_cell s] (x_step s local_dof_indices xi_q) 0) (\<lambda>x.
       let f = 1 * x
       in bind_err (basis_function (basisFunctionOrder s) A xi_q) (\<lambda>NA.
          bind_err (vec_at (quad_weight s) q) (\<lambda>w_q.
            Inr (Flocal[A := Flocal ! A + h_e / 2 * NA * w_q * f])))))"

definition load_vector :: "fem_state \<Rightarrow> nat list \<Rightarrow> real \<Rightarrow> error + real list" where
  "load_vector s local_dof_indices h_e =
     for_loop [0..<dofs_per_cell s]
       (\<lambda>A. for_loop [0..<quadRule s] (load_step s local_dof_indices h_e A))
       (replicate (dofs_per_cell s) 0)"

text \<open>
  "Add nonzero Neumann condition, if applicable":
  \<open>if (prob == 2) if (nodeLocation[local_dof_indices[1]] == L) Flocal[1] += h\<close>.
\<close>

definition neumann :: "fem_state \<Rightarrow> nat list \<Rightarrow> real list \<Rightarrow> error + real list" where
  "neumann s local_dof_indices Flocal =
     (if prob s = 2 then
        bind_err (vec_at local_dof_indices 1) (\<lambda>g.
        bind_err (vec_at (nodeLocation s) g) (\<lambda>x_right.
          if x_right = L_m s
          then bind_err (vec_at Flocal 1) (\<lambda>v. Inr (Flocal[1 := v + h_m s]))
          else Inr Flocal))
      else Inr Flocal)"

text \<open>
  The local stiffness matrix:
  \<open>Klocal[A][B] += 2. / h_e * basis_gradient(A, quad_points[q])
                            * basis_gradient(B, quad_points[q]) * quad_weight[q]\<close>.
  For \<open>h_e = 0\<close> the C++ quotient \<open>2. / h_e\<close> is infinite, the HOL quotient is 0: the
  entries of \<open>Klocal\<close> are those of the program only for \<open>h_e \<noteq> 0\<close>. Neither stops.
\<close>

definition stiffness_step :: "fem_state \<Rightarrow> real \<Rightarrow> nat \<Rightarrow> nat \<Rightarrow> nat \<Rightarrow> (nat \<Rightarrow> nat \<Rightarrow> real) \<Rightarrow> error + (nat \<Rightarrow> nat \<Rightarrow> real)" where
  "stiffness_step s h_e A B q Klocal =
     bind_err (vec_at (quad_points s) q) (\<lambda>xi_q.
     bind_err (basis_gradient (basisFunctionOrder s) A xi_q) (\<lambda>dNA.
     bind_err (basis_gradient (basisFunctionOrder s) B xi_q) (\<lambda>dNB.
     bind_err (vec_at (quad_weight s) q) (\<lambda>w_q.
       Inr (Klocal(A := (Klocal A)(B := Klocal A B + 2 / h_e * dNA * dNB * w_q)))))))"

definition stiffness_matrix :: "fem_state \<Rightarrow> real \<Rightarrow> error + (nat \<Rightarrow> nat \<Rightarrow> real)" where
  "stiffness_matrix s h_e =
     for_loop [0..<dofs_per_cell s]
       (\<lambda>A. for_loop [0..<dofs_per_cell s]
          (\<lambda>B. for_loop [0..<quadRule s] (stiffness_step s h_e A B)))
       (\<lambda>A B. 0)"

text \<open>
  The scatter into the global vector and matrix: \<open>F[local_dof_indices[A]] += Flocal[A]\<close>
  and \<open>K.add(local_dof_indices[A], local_dof_indices[B], Klocal[A][B])\<close>. \<open>F\<close> has its
  own length; \<open>K\<close> has \<open>n_dofs\<close> rows and columns.
\<close>

type_synonym global_system = "(nat \<Rightarrow> nat \<Rightarrow> real) \<times> real list"

definition scatter_K :: "fem_state \<Rightarrow> nat list \<Rightarrow> (nat \<Rightarrow> nat \<Rightarrow> real) \<Rightarrow> nat \<Rightarrow> nat \<Rightarrow> global_system \<Rightarrow> error + global_system" where
  "scatter_K s local_dof_indices Klocal A B KF =
     bind_err (vec_at local_dof_indices A) (\<lambda>gA.
     bind_err (vec_at local_dof_indices B) (\<lambda>gB.
       if gA < n_dofs s \<and> gB < n_dofs s
       then Inr ((fst KF)(gA := (fst KF gA)(gB := fst KF gA gB + Klocal A B)), snd KF)
       else Inl OutOfRange))"

definition scatter_step :: "fem_state \<Rightarrow> nat list \<Rightarrow> real list \<Rightarrow> (nat \<Rightarrow> nat \<Rightarrow> real) \<Rightarrow> nat \<Rightarrow> global_system \<Rightarrow> error + global_system" where
  "scatter_step s local_dof_indices Flocal Klocal A KF =
     bind_err (vec_at local_dof_indices A) (\<lambda>gA.
     bind_err (vec_at (snd KF) gA) (\<lambda>FgA.
     bind_err (vec_at Flocal A) (\<lambda>FA.
       for_loop [0..<dofs_per_cell s] (scatter_K s local_dof_indices Klocal A)
         (fst KF, (snd KF)[gA := FgA + FA]))))"

text \<open>One pass of the loop over the elements.\<close>

definition assemble_element :: "fem_state \<Rightarrow> nat list \<Rightarrow> global_system \<Rightarrow> error + global_system" where
  "assemble_element s local_dof_indices KF =
     bind_err (vec_at local_dof_indices 1) (\<lambda>n1.
     bind_err (vec_at (nodeLocation s) n1) (\<lambda>x1.
     bind_err (vec_at local_dof_indices 0) (\<lambda>n0.
     bind_err (vec_at (nodeLocation s) n0) (\<lambda>x0.
       let h_e = x1 - x0
       in bind_err (load_vector s local_dof_indices h_e) (\<lambda>Flocal0.
          bind_err (neumann s local_dof_indices Flocal0) (\<lambda>Flocal.
          bind_err (stiffness_matrix s h_e) (\<lambda>Klocal.
            for_loop [0..<dofs_per_cell s]
              (scatter_step s local_dof_indices Flocal Klocal) KF)))))))"

text \<open>
  \<open>assemble_system\<close>: \<open>K=0; F=0\<close>, the loop over the elements, and at the end
  \<open>MatrixTools::apply_boundary_values(boundary_values, K, D, F, false)\<close>, which is
  deal.II's and is the argument \<open>apply_boundary_values\<close>. \<open>assemble_elements\<close> is the
  function up to that call.
\<close>

definition assemble_elements :: "fem_state \<Rightarrow> error + fem_state" where
  "assemble_elements s =
     bind_err (for_loop (cells s) (assemble_element s)
                 (\<lambda>i j. 0, replicate (length (F_m s)) 0))
       (\<lambda>KF. Inr (s\<lparr>K_m := fst KF, F_m := snd KF\<rparr>))"

definition assemble_system ::
  "((nat \<rightharpoonup> real) \<Rightarrow> fem_state \<Rightarrow> fem_state) \<Rightarrow> fem_state \<Rightarrow> error + fem_state" where
  "assemble_system apply_boundary_values s =
     bind_err (assemble_elements s) (\<lambda>s'.
       Inr (apply_boundary_values (boundary_values s') s'))"

subsection \<open>Error evaluator\<close>

text \<open>
  The two statements of the loop over \<open>B\<close> in \<open>l2norm_of_error\<close>:
  \<open>x += nodeLocation[local_dof_indices[B]] * basis_function(B, quad_points[q])\<close> and
  \<open>u_h += D[local_dof_indices[B]] * basis_function(B, quad_points[q])\<close>.
\<close>

definition xu_step :: "fem_state \<Rightarrow> nat list \<Rightarrow> real \<Rightarrow> nat \<Rightarrow> real \<times> real \<Rightarrow> error + real \<times> real" where
  "xu_step s local_dof_indices xi_q B xu =
     bind_err (vec_at local_dof_indices B) (\<lambda>gB.
     bind_err (vec_at (nodeLocation s) gB) (\<lambda>xB.
     bind_err (basis_function (basisFunctionOrder s) B xi_q) (\<lambda>NB.
       let x = fst xu + xB * NB
       in bind_err (vec_at (D_m s) gB) (\<lambda>DB.
          bind_err (basis_function (basisFunctionOrder s) B xi_q) (\<lambda>NB'.
            Inr (x, snd xu + DB * NB'))))))"

text \<open>
  The two closed forms of the exact solution, as the source writes them. They divide by
  \<open>6 E\<close> and by \<open>L\<close>, which \<open>setup_system\<close> and \<open>generate_mesh\<close> set to \<open>6 \<cdot> 10\<^sup>1\<^sup>1\<close> and \<open>0.1\<close>;
  the formulas are those of the program for \<open>E \<noteq> 0\<close> and \<open>L \<noteq> 0\<close>.
\<close>

definition u_exact_prob1 :: "fem_state \<Rightarrow> real \<Rightarrow> real" where
  "u_exact_prob1 s x =
     - x * x * x * 100000000000 / (6 * E_m s)
     + (g2 s - g1 s + L_m s * L_m s * L_m s * 100000000000 / (6 * E_m s)) / L_m s * x
     + g1 s"

definition u_exact_prob2 :: "fem_state \<Rightarrow> real \<Rightarrow> real" where
  "u_exact_prob2 s x =
     - x * x * x / (6 * E_m s) + (h_m s + 0.5 * L_m s * L_m s) * x + g1 s"

text \<open>
  \<open>if (prob==1) u_exact = ...; if (prob==2) u_exact = ...\<close>: for any other \<open>prob\<close> the
  variable \<open>u_exact\<close> is never assigned (\<open>None\<close>).
\<close>

definition u_exact :: "fem_state \<Rightarrow> real \<Rightarrow> real option" where
  "u_exact s x =
     (let u1 = (if prob s = 1 then Some (u_exact_prob1 s x) else None);
          u2 = (if prob s = 2 then Some (u_exact_prob2 s x) else u1)
      in u2)"

definition l2_step :: "fem_state \<Rightarrow> nat list \<Rightarrow> real \<Rightarrow> nat \<Rightarrow> real \<Rightarrow> error + real" where
  "l2_step s local_dof_indices h_e q l2norm =
     bind_err (vec_at (quad_points s) q) (\<lambda>xi_q.
     bind_err (for_loop [0..<dofs_per_cell s] (xu_step s local_dof_indices xi_q) (0, 0))
       (\<lambda>xu. case u_exact s (fst xu) of
                None \<Rightarrow> Inl Uninitialised
              | Some ue \<Rightarrow>
                  bind_err (vec_at (quad_weight s) q) (\<lambda>w_q.
                    Inr (l2norm + (snd xu - ue) * (snd xu - ue) * h_e / 2 * w_q))))"

definition l2_element :: "fem_state \<Rightarrow> nat list \<Rightarrow> real \<Rightarrow> error + real" where
  "l2_element s local_dof_indices l2norm =
     bind_err (vec_at local_dof_indices 1) (\<lambda>n1.
     bind_err (vec_at (nodeLocation s) n1) (\<lambda>x1.
     bind_err (vec_at local_dof_indices 0) (\<lambda>n0.
     bind_err (vec_at (nodeLocation s) n0) (\<lambda>x0.
       let h_e = x1 - x0
       in for_loop [0..<quadRule s] (l2_step s local_dof_indices h_e) l2norm))))"

text \<open>
  \<open>sqrt\<close> of \<open><cmath>\<close> returns a NaN for a negative argument, which is no real number:
  \<open>None\<close>.
\<close>

definition c_sqrt :: "real \<Rightarrow> real option" where
  "c_sqrt t = (if t < 0 then None else Some (sqrt t))"

definition l2norm_of_error :: "fem_state \<Rightarrow> error + real option" where
  "l2norm_of_error s =
     bind_err (for_loop (cells s) (l2_element s) 0) (\<lambda>l2norm. Inr (c_sqrt l2norm))"

subsection \<open>Reference formulas\<close>

text \<open>
  What the specification says of the same quantities, in closed form, for comparison
  with the functions above. \<open>xi_ref\<close> is the reference coordinate of a local node and
  \<open>lagrange\<close> the product of \<open>(\<xi> - \<xi>\<^sub>i) / (\<xi>\<^sub>n\<^sub>o\<^sub>d\<^sub>e - \<xi>\<^sub>i)\<close> over the other nodes \<open>i\<close>.
\<close>

definition xi_ref :: "nat \<Rightarrow> nat \<Rightarrow> real" where
  "xi_ref order n =
     (if n = 0 then - 1 else if n = 1 then 1 else - 1 + 2 * (real n - 1) / real order)"

definition lagrange :: "nat \<Rightarrow> nat \<Rightarrow> real \<Rightarrow> real" where
  "lagrange order node xi =
     (\<Prod>i \<in> {0..order} - {node}. (xi - xi_ref order i) / (xi_ref order node - xi_ref order i))"

text \<open>
  The state of a run after set-up: every cell lists order + 1 degrees of freedom, all
  below \<open>n_dofs\<close>; the vectors over the degrees of freedom have \<open>n_dofs\<close> entries; the
  quadrature vectors have \<open>quadRule\<close> entries.
\<close>

definition mesh_ok :: "fem_state \<Rightarrow> bool" where
  "mesh_ok s \<longleftrightarrow>
     1 \<le> basisFunctionOrder s
     \<and> list_all (\<lambda>c. length c = dofs_per_cell s \<and> list_all (\<lambda>g. g < n_dofs s) c) (cells s)
     \<and> length (nodeLocation s) = n_dofs s
     \<and> length (F_m s) = n_dofs s
     \<and> length (D_m s) = n_dofs s
     \<and> length (quad_points s) = quadRule s
     \<and> length (quad_weight s) = quadRule s"

text \<open>
  The coordinate and the finite-element solution at a quadrature point, by
  interpolation with the basis functions: the sums over the local nodes \<open>B\<close> of
  \<open>nodeLocation[local_dof_indices[B]] N\<^sub>B(\<xi>)\<close> and of \<open>D[local_dof_indices[B]] N\<^sub>B(\<xi>)\<close>.
\<close>

definition x_interp :: "fem_state \<Rightarrow> nat list \<Rightarrow> real \<Rightarrow> real" where
  "x_interp s c xi =
     (\<Sum>B \<le> basisFunctionOrder s. nodeLocation s ! (c ! B) * lagrange (basisFunctionOrder s) B xi)"

definition u_interp :: "fem_state \<Rightarrow> nat list \<Rightarrow> real \<Rightarrow> real" where
  "u_interp s c xi =
     (\<Sum>B \<le> basisFunctionOrder s. D_m s ! (c ! B) * lagrange (basisFunctionOrder s) B xi)"

definition elem_length :: "fem_state \<Rightarrow> nat list \<Rightarrow> real" where
  "elem_length s c = nodeLocation s ! (c ! 1) - nodeLocation s ! (c ! 0)"

text \<open>The distributed-load integral of local node \<open>A\<close> by the quadrature rule.\<close>

definition load_integral :: "fem_state \<Rightarrow> nat list \<Rightarrow> nat \<Rightarrow> real" where
  "load_integral s c A =
     (\<Sum>q < quadRule s.
        elem_length s c / 2 * lagrange (basisFunctionOrder s) A (quad_points s ! q)
        * quad_weight s ! q * x_interp s c (quad_points s ! q))"

text \<open>The squared error of one element by the quadrature rule.\<close>

definition squared_error :: "fem_state \<Rightarrow> (real \<Rightarrow> real) \<Rightarrow> nat list \<Rightarrow> real" where
  "squared_error s ue c =
     (\<Sum>q < quadRule s.
        (u_interp s c (quad_points s ! q) - ue (x_interp s c (quad_points s ! q)))\<^sup>2
        * (elem_length s c / 2) * quad_weight s ! q)"

text \<open>
  The local load vector of a cell, flux included, and its scatter into a global
  vector: \<open>F[c[A]] += Flocal[A]\<close> for the local nodes \<open>A\<close> in turn.
\<close>

definition local_load :: "fem_state \<Rightarrow> nat list \<Rightarrow> real list" where
  "local_load s c =
     (let Flocal0 = map (load_integral s c) [0..<dofs_per_cell s]
      in if prob s = 2 \<and> nodeLocation s ! (c ! 1) = L_m s
         then Flocal0[1 := Flocal0 ! 1 + h_m s] else Flocal0)"

definition scatter_load :: "fem_state \<Rightarrow> nat list \<Rightarrow> real list \<Rightarrow> real list" where
  "scatter_load s c Fg =
     fold (\<lambda>A Fg. Fg[c ! A := Fg ! (c ! A) + local_load s c ! A]) [0..<dofs_per_cell s] Fg"

subsection \<open>Example states\<close>

text \<open>
  A run with linear elements on two cells, \<open>[0, 0.05]\<close> and \<open>[0.05, 0.1]\<close>, with the
  constants and the quadrature rule of \<open>setup_system\<close>, and the same mesh with the
  two nodes of its first cell exchanged, so that this cell has the length \<open>-0.05\<close>.
\<close>

definition example_state :: fem_state where
  "example_state =
     \<lparr>basisFunctionOrder = 1, prob = 1, L_m = 0.1, g1 = 0, g2 = 0.001,
      E_m = 100000000000, f_m = 100000000000, h_m = 10000000000,
      quadRule = 3,
      quad_points = [- 0.7745966692414834, 0.0, 0.7745966692414834],
      quad_weight = [0.5555555555555557, 0.8888888888888888, 0.5555555555555557],
      nodeLocation = [0, 0.05, 0.1],
      boundary_values = Map.empty,
      K_m = (\<lambda>i j. 0), D_m = [0, 0, 0], F_m = [0, 0, 0],
      cells = [[0, 1], [1, 2]], n_dofs = 3\<rparr>"

definition reversed_state :: fem_state where
  "reversed_state = example_state\<lparr>cells := [[1, 0], [1, 2]]\<rparr>"

text \<open>The same run in problem 2, with the flux at the right end.\<close>

definition neumann_state :: fem_state where
  "neumann_state = example_state\<lparr>prob := 2\<rparr>"

section \<open>Properties of the reference basis evaluator\<close>

lemma bind_err_Inr [simp]: "bind_err (Inr v) k = k v"
  by (simp add: bind_err_def)

lemma bind_err_Inl [simp]: "bind_err (Inl e) k = Inl e"
  by (simp add: bind_err_def)

lemma for_loop_pure:
  assumes "\<And>i a. i \<in> set is \<Longrightarrow> body i a = Inr (g i a)"
  shows "for_loop is body a = Inr (fold g is a)"
  using assms by (induction "is" arbitrary: a) simp_all

lemma xi_at_node_ref:
  assumes "n \<le> order \<or> n \<le> 1"
  shows "xi_at_node order n = Inr (xi_ref order n)"
  using assms by (auto simp add: xi_at_node_def xi_ref_def)

lemma basis_function_step_pure:
  assumes "i \<le> order" and "node \<le> order"
  shows "basis_function_step order node xi i v =
         Inr (if i \<noteq> node then v * ((xi - xi_ref order i) / (xi_ref order node - xi_ref order i)) else v)"
  using assms by (simp add: basis_function_step_def xi_at_node_ref)

lemma fold_prod_upt:
  "fold (\<lambda>i v. if i \<noteq> node then v * t i else v) [0..<k] (v0::real)
   = v0 * (\<Prod>i \<in> {0..<k} - {node}. t i)"
proof (induction k)
  case 0 then show ?case by simp
next
  case (Suc k)
  have *: "{0..<Suc k} - {node} = (if k = node then {0..<k} - {node} else insert k ({0..<k} - {node}))"
    by auto
  have **: "k = node \<Longrightarrow> {0..<k} - {node} = {0..<k}" by auto
  show ?case using Suc by (auto simp add: * **)
qed

lemma basis_function_lagrange:
  assumes "node \<le> order"
  shows "basis_function order node xi = Inr (lagrange order node xi)"
proof -
  have "basis_function order node xi =
        Inr (fold (\<lambda>i v. if i \<noteq> node then v * ((xi - xi_ref order i) / (xi_ref order node - xi_ref order i)) else v) [0..<order + 1] 1)"
    unfolding basis_function_def
  proof (rule for_loop_pure)
    fix i a assume "i \<in> set [0..<order + 1]"
    then have "i \<le> order" by auto
    then show "basis_function_step order node xi i a =
       Inr (if i \<noteq> node then a * ((xi - xi_ref order i) / (xi_ref order node - xi_ref order i)) else a)"
      using assms by (rule basis_function_step_pure)
  qed
  also have "\<dots> = Inr (lagrange order node xi)"
    by (simp only: fold_prod_upt lagrange_def) (simp add: atLeastLessThanSuc_atLeastAtMost)
  finally show ?thesis .
qed

lemma set3: "{0..3::nat} = {0,1,2,3}" "{0..2::nat} = {0,1,2}" "{0..1::nat} = {0,1}"
  "{..3::nat} = {0,1,2,3}" "{..2::nat} = {0,1,2}" "{..1::nat} = {0,1}"
  by auto

lemma lagrange_3:
  "lagrange 3 0 xi = - 9 / 16 * (xi - 1) * (xi + 1/3) * (xi - 1/3)"
  "lagrange 3 1 xi = 9 / 16 * (xi + 1) * (xi + 1/3) * (xi - 1/3)"
  "lagrange 3 2 xi = 27 / 16 * (xi + 1) * (xi - 1) * (xi - 1/3)"
  "lagrange 3 3 xi = - 27 / 16 * (xi + 1) * (xi - 1) * (xi + 1/3)"
  by (simp_all add: lagrange_def xi_ref_def set3 insert_Diff_if field_simps)

lemma lagrange_2:
  "lagrange 2 0 xi = (xi - 1) * xi / 2"
  "lagrange 2 1 xi = (xi + 1) * xi / 2"
  "lagrange 2 2 xi = - (xi + 1) * (xi - 1)"
  by (simp_all add: lagrange_def xi_ref_def set3 insert_Diff_if field_simps)

lemma lagrange_1:
  "lagrange 1 0 xi = - (xi - 1) / 2"
  "lagrange 1 1 xi = (xi + 1) / 2"
  by (simp_all add: lagrange_def xi_ref_def set3 insert_Diff_if field_simps)

lemma le_cases3:
  "(i::nat) \<le> Suc 0 \<longleftrightarrow> i = 0 \<or> i = Suc 0"
  "(i::nat) \<le> 2 \<longleftrightarrow> i = 0 \<or> i = Suc 0 \<or> i = 2"
  "(i::nat) \<le> 3 \<longleftrightarrow> i = 0 \<or> i = Suc 0 \<or> i = 2 \<or> i = 3"
  by auto

lemma sum_le3:
  "(\<Sum>n \<le> Suc 0. t n) = (t 0 + t (Suc 0) :: real)"
  "(\<Sum>n \<le> 2. t n) = (t 0 + t (Suc 0) + t 2 :: real)"
  "(\<Sum>n \<le> 3. t n) = (t 0 + t (Suc 0) + t 2 + t 3 :: real)"
  by (simp_all add: numeral_2_eq_2 numeral_3_eq_3)

lemma lagrange_S:
  "lagrange (Suc 0) 0 xi = (1 - xi) / 2"
  "lagrange (Suc 0) (Suc 0) xi = (xi + 1) / 2"
  "lagrange 2 (Suc 0) xi = (xi + 1) * xi / 2"
  "lagrange 3 (Suc 0) xi = 9 / 16 * (xi + 1) * (xi + 1/3) * (xi - 1/3)"
  using lagrange_1 [of xi] lagrange_2 [of xi] lagrange_3 [of xi] by simp_all

lemma partition_order1: "(\<Sum>node \<le> Suc 0. lagrange (Suc 0) node xi) = 1"
  unfolding sum_le3 lagrange_S by (simp add: field_simps)
lemma partition_order2: "(\<Sum>node \<le> 2. lagrange 2 node xi) = 1"
  unfolding sum_le3 lagrange_S lagrange_2 by (simp add: field_simps)
lemma partition_order3: "(\<Sum>node \<le> 3. lagrange 3 node xi) = 1"
  unfolding sum_le3 lagrange_S lagrange_3 by (simp add: field_simps)
lemma lagrange_nodal1:
  assumes "i \<le> Suc 0" and "j \<le> Suc 0"
  shows "lagrange (Suc 0) i (xi_ref (Suc 0) j) = (if i = j then 1 else 0)"
  using assms unfolding le_cases3
  by (elim disjE) (simp_all add: lagrange_S xi_ref_def)

lemma lagrange_nodal2:
  assumes "i \<le> 2" and "j \<le> 2"
  shows "lagrange 2 i (xi_ref 2 j) = (if i = j then 1 else 0)"
  using assms unfolding le_cases3
  by (elim disjE) (simp_all add: lagrange_S lagrange_2 xi_ref_def)

lemma lagrange_nodal3:
  assumes "i \<le> 3" and "j \<le> 3"
  shows "lagrange 3 i (xi_ref 3 j) = (if i = j then 1 else 0)"
  using assms unfolding le_cases3
  by (elim disjE) (simp_all add: lagrange_S lagrange_3 xi_ref_def)

lemma lagrange_nodal:
  assumes "order \<in> {1, 2, 3}" and "i \<le> order" and "j \<le> order"
  shows "lagrange order i (xi_ref order j) = (if i = j then 1 else 0)"
proof -
  from assms(1) consider "order = Suc 0" | "order = 2" | "order = 3" by auto
  then show ?thesis
  proof cases
    case 1
    with assms(2,3) have "i \<le> Suc 0" "j \<le> Suc 0" by simp_all
    then show ?thesis unfolding 1 by (rule lagrange_nodal1)
  next
    case 2
    with assms(2,3) have "i \<le> 2" "j \<le> 2" by simp_all
    then show ?thesis unfolding 2 by (rule lagrange_nodal2)
  next
    case 3
    with assms(2,3) have "i \<le> 3" "j \<le> 3" by simp_all
    then show ?thesis unfolding 3 by (rule lagrange_nodal3)
  qed
qed

lemma lagrange_partition:
  assumes "order \<in> {1, 2, 3}"
  shows "(\<Sum>node \<le> order. lagrange order node xi) = 1"
proof -
  from assms consider "order = Suc 0" | "order = 2" | "order = 3" by auto
  then show ?thesis
  proof cases
    case 1 show ?thesis unfolding 1 by (rule partition_order1)
  next
    case 2 show ?thesis unfolding 2 by (rule partition_order2)
  next
    case 3 show ?thesis unfolding 3 by (rule partition_order3)
  qed
qed

text \<open>
  C1. For an order of 1, 2 or 3 and local nodes \<open>i\<close>, \<open>j\<close> up to the order,
  \<open>basis_function\<close> of node \<open>i\<close> at the reference coordinate that \<open>xi_at_node\<close> gives
  for node \<open>j\<close> is 1 if \<open>i = j\<close> and 0 otherwise; and at every \<open>xi\<close> (in particular
  on \<open>[-1, 1]\<close>) the values of \<open>basis_function\<close> over all nodes of the element add up
  to 1.
\<close>

theorem basis_function_nodal_partition:
  assumes "order \<in> {1, 2, 3}"
  shows "(\<forall>i \<le> order. \<forall>j \<le> order. \<exists>xi_j.
            xi_at_node order j = Inr xi_j
            \<and> basis_function order i xi_j = Inr (if i = j then 1 else 0))
       \<and> (\<forall>xi. \<exists>N. (\<forall>node \<le> order. basis_function order node xi = Inr (N node))
                     \<and> (\<Sum>node \<le> order. N node) = 1)"
proof (intro conjI allI impI)
  fix i j assume ij: "i \<le> order" "j \<le> order"
  have 1: "xi_at_node order j = Inr (xi_ref order j)"
    using ij(2) by (simp add: xi_at_node_ref)
  have "basis_function order i (xi_ref order j) = Inr (lagrange order i (xi_ref order j))"
    using ij(1) by (rule basis_function_lagrange)
  also have "lagrange order i (xi_ref order j) = (if i = j then 1 else 0)"
    using assms ij by (rule lagrange_nodal)
  finally have 2: "basis_function order i (xi_ref order j) = Inr (if i = j then 1 else 0)" .
  from 1 2 show "\<exists>xi_j. xi_at_node order j = Inr xi_j
            \<and> basis_function order i xi_j = Inr (if i = j then 1 else 0)"
    by (intro exI conjI)
next
  fix xi
  have 1: "\<forall>node \<le> order. basis_function order node xi = Inr (lagrange order node xi)"
    by (simp add: basis_function_lagrange)
  have 2: "(\<Sum>node \<le> order. lagrange order node xi) = 1"
    using assms by (rule lagrange_partition)
  from 1 2 show "\<exists>N. (\<forall>node \<le> order. basis_function order node xi = Inr (N node))
                     \<and> (\<Sum>node \<le> order. N node) = 1"
    by (intro exI [of _ "\<lambda>node. lagrange order node xi"] conjI)
qed

theorem basis_function_nodal_partition_witness:
  "(\<exists>xi_j. xi_at_node 3 2 = Inr xi_j \<and> basis_function 3 2 xi_j = Inr 1)
   \<and> (\<exists>xi_j. xi_at_node 3 2 = Inr xi_j \<and> basis_function 3 0 xi_j = Inr 0)
   \<and> (\<exists>N. (\<forall>node \<le> 3. basis_function 3 node (1 / 2) = Inr (N node))
            \<and> (\<Sum>node \<le> 3. N node) = 1)"
proof -
  have o: "(3::nat) \<in> {1, 2, 3}" by simp
  note t = basis_function_nodal_partition [OF o]
  note a = conjunct1 [OF t, rule_format]
  note b = conjunct2 [OF t, rule_format]
  have l: "(2::nat) \<le> 3" "(0::nat) \<le> 3" by simp_all
  have c1: "\<exists>xi_j. xi_at_node 3 2 = Inr xi_j \<and> basis_function 3 2 xi_j = Inr 1"
    using a [OF l(1) l(1)] by simp
  have c2: "\<exists>xi_j. xi_at_node 3 2 = Inr xi_j \<and> basis_function 3 0 xi_j = Inr 0"
    using a [OF l(2) l(1)] by simp
  from c1 c2 b [of "1 / 2"] show ?thesis by (intro conjI)
qed

lemma basis_gradient_values:
  "basis_gradient (Suc 0) 0 xi = Inr (- 1 / 2)"
  "basis_gradient (Suc 0) (Suc 0) xi = Inr (1 / 2)"
  "basis_gradient 2 0 xi = Inr (xi - 1 / 2)"
  "basis_gradient 2 (Suc 0) xi = Inr (xi + 1 / 2)"
  "basis_gradient 2 2 xi = Inr (- 2 * xi)"
  by (simp_all add: basis_gradient_def xi_at_node_def other_nodes2_def Let_def field_simps)

lemma basis_gradient_values3:
  "basis_gradient 3 0 xi = Inr (- 9 / 16 * (3 * xi * xi - 2 * xi - 1 / 9))"
  "basis_gradient 3 (Suc 0) xi = Inr (9 / 16 * (3 * xi * xi + 2 * xi - 1 / 9))"
  "basis_gradient 3 2 xi = Inr (27 / 16 * (3 * xi * xi - 2 / 3 * xi - 1))"
  "basis_gradient 3 3 xi = Inr (- 27 / 16 * (3 * xi * xi + 2 / 3 * xi - 1))"
  by (simp_all add: basis_gradient_def xi_at_node_def other_nodes3_def Let_def field_simps)

lemma deriv_affine:
  "((\<lambda>x::real. (a * x + b)) has_real_derivative a) (at xi)"
  by (rule derivative_eq_intros refl | simp)+

lemma deriv_quadratic:
  "((\<lambda>x::real. a * (x - p) * (x - q)) has_real_derivative a * ((xi - p) + (xi - q))) (at xi)"
  by (rule derivative_eq_intros refl | simp add: algebra_simps)+

lemma deriv_cubic:
  "((\<lambda>x::real. a * (x - p) * (x - q) * (x - r)) has_real_derivative
      a * ((xi - q) * (xi - r) + (xi - p) * (xi - r) + (xi - p) * (xi - q))) (at xi)"
  by (rule derivative_eq_intros refl | simp add: algebra_simps)+

lemma lagrange_fun1:
  "lagrange (Suc 0) 0 = (\<lambda>x. (- 1 / 2) * x + 1 / 2)"
  "lagrange (Suc 0) (Suc 0) = (\<lambda>x. (1 / 2) * x + 1 / 2)"
  by (rule ext, simp add: lagrange_S field_simps)+

lemma lagrange_fun2:
  "lagrange 2 0 = (\<lambda>x. (1 / 2) * (x - 1) * (x - 0))"
  "lagrange 2 (Suc 0) = (\<lambda>x. (1 / 2) * (x - (- 1)) * (x - 0))"
  "lagrange 2 2 = (\<lambda>x. (- 1) * (x - (- 1)) * (x - 1))"
  by (rule ext, simp add: lagrange_S lagrange_2 field_simps)+

lemma lagrange_fun3:
  "lagrange 3 0 = (\<lambda>x. (- 9 / 16) * (x - 1) * (x - (- 1 / 3)) * (x - 1 / 3))"
  "lagrange 3 (Suc 0) = (\<lambda>x. (9 / 16) * (x - (- 1)) * (x - (- 1 / 3)) * (x - 1 / 3))"
  "lagrange 3 2 = (\<lambda>x. (27 / 16) * (x - (- 1)) * (x - 1) * (x - 1 / 3))"
  "lagrange 3 3 = (\<lambda>x. (- 27 / 16) * (x - (- 1)) * (x - 1) * (x - (- 1 / 3)))"
  by (rule ext, simp add: lagrange_S lagrange_3 field_simps)+

lemma basis_gradient_form2:
  "basis_gradient 2 0 xi = Inr ((1 / 2) * ((xi - 1) + (xi - 0)))"
  "basis_gradient 2 (Suc 0) xi = Inr ((1 / 2) * ((xi - (- 1)) + (xi - 0)))"
  "basis_gradient 2 2 xi = Inr ((- 1) * ((xi - (- 1)) + (xi - 1)))"
  by (simp_all add: basis_gradient_values)

lemma basis_gradient_form3:
  "basis_gradient 3 0 xi = Inr ((- 9 / 16) * ((xi - (- 1 / 3)) * (xi - 1 / 3)
       + (xi - 1) * (xi - 1 / 3) + (xi - 1) * (xi - (- 1 / 3))))"
  "basis_gradient 3 (Suc 0) xi = Inr ((9 / 16) * ((xi - (- 1 / 3)) * (xi - 1 / 3)
       + (xi - (- 1)) * (xi - 1 / 3) + (xi - (- 1)) * (xi - (- 1 / 3))))"
  "basis_gradient 3 2 xi = Inr ((27 / 16) * ((xi - 1) * (xi - 1 / 3)
       + (xi - (- 1)) * (xi - 1 / 3) + (xi - (- 1)) * (xi - 1)))"
  "basis_gradient 3 3 xi = Inr ((- 27 / 16) * ((xi - 1) * (xi - (- 1 / 3))
       + (xi - (- 1)) * (xi - (- 1 / 3)) + (xi - (- 1)) * (xi - 1)))"
  by (simp_all add: basis_gradient_values3 field_simps)

lemma gradient_derivative1:
  assumes "node \<le> Suc 0"
  shows "\<exists>g. basis_gradient (Suc 0) node xi = Inr g
            \<and> ((lagrange (Suc 0) node) has_real_derivative g) (at xi)"
proof -
  from assms consider "node = 0" | "node = Suc 0" by (auto simp add: le_cases3)
  then show ?thesis
  proof cases
    case 1 show ?thesis unfolding 1 lagrange_fun1 basis_gradient_values
      by (rule exI, rule conjI, rule refl, rule deriv_affine)
  next
    case 2 show ?thesis unfolding 2 lagrange_fun1 basis_gradient_values
      by (rule exI, rule conjI, rule refl, rule deriv_affine)
  qed
qed

lemma gradient_derivative2:
  assumes "node \<le> 2"
  shows "\<exists>g. basis_gradient 2 node xi = Inr g
            \<and> ((lagrange 2 node) has_real_derivative g) (at xi)"
proof -
  from assms consider "node = 0" | "node = Suc 0" | "node = 2" by (auto simp add: le_cases3)
  then show ?thesis
  proof cases
    case 1 show ?thesis unfolding 1 lagrange_fun2 basis_gradient_form2
      by (rule exI, rule conjI, rule refl, rule deriv_quadratic)
  next
    case 2 show ?thesis unfolding 2 lagrange_fun2 basis_gradient_form2
      by (rule exI, rule conjI, rule refl, rule deriv_quadratic)
  next
    case 3 show ?thesis unfolding 3 lagrange_fun2 basis_gradient_form2
      by (rule exI, rule conjI, rule refl, rule deriv_quadratic)
  qed
qed

lemma gradient_derivative3:
  assumes "node \<le> 3"
  shows "\<exists>g. basis_gradient 3 node xi = Inr g
            \<and> ((lagrange 3 node) has_real_derivative g) (at xi)"
proof -
  from assms consider "node = 0" | "node = Suc 0" | "node = 2" | "node = 3"
    by (auto simp add: le_cases3)
  then show ?thesis
  proof cases
    case 1 show ?thesis unfolding 1 lagrange_fun3 basis_gradient_form3
      by (rule exI, rule conjI, rule refl, rule deriv_cubic)
  next
    case 2 show ?thesis unfolding 2 lagrange_fun3 basis_gradient_form3
      by (rule exI, rule conjI, rule refl, rule deriv_cubic)
  next
    case 3 show ?thesis unfolding 3 lagrange_fun3 basis_gradient_form3
      by (rule exI, rule conjI, rule refl, rule deriv_cubic)
  next
    case 4 show ?thesis unfolding 4 lagrange_fun3 basis_gradient_form3
      by (rule exI, rule conjI, rule refl, rule deriv_cubic)
  qed
qed

text \<open>
  C2. For an order of 1, 2 or 3 and a local node up to the order, \<open>basis_function\<close>
  computes the Lagrange product over the other nodes, and \<open>basis_gradient\<close> returns the
  derivative of that polynomial at \<open>xi\<close>.
\<close>

theorem basis_gradient_is_derivative:
  assumes "order \<in> {1, 2, 3}" and "node \<le> order"
  shows "(\<forall>x. basis_function order node x = Inr (lagrange order node x))
       \<and> (\<exists>g. basis_gradient order node xi = Inr g
                \<and> ((lagrange order node) has_real_derivative g) (at xi))"
proof
  show "\<forall>x. basis_function order node x = Inr (lagrange order node x)"
    using assms(2) by (simp add: basis_function_lagrange)
  from assms(1) consider "order = Suc 0" | "order = 2" | "order = 3" by auto
  then show "\<exists>g. basis_gradient order node xi = Inr g
                \<and> ((lagrange order node) has_real_derivative g) (at xi)"
  proof cases
    case 1
    with assms(2) have "node \<le> Suc 0" by simp
    then show ?thesis unfolding 1 by (rule gradient_derivative1)
  next
    case 2
    with assms(2) have "node \<le> 2" by simp
    then show ?thesis unfolding 2 by (rule gradient_derivative2)
  next
    case 3
    with assms(2) have "node \<le> 3" by simp
    then show ?thesis unfolding 3 by (rule gradient_derivative3)
  qed
qed

theorem basis_gradient_is_derivative_witness:
  "(\<forall>x. basis_function 3 2 x = Inr (lagrange 3 2 x))
   \<and> (\<exists>g. basis_gradient 3 2 (1 / 2) = Inr g
            \<and> ((lagrange 3 2) has_real_derivative g) (at (1 / 2)))"
proof -
  have o: "(3::nat) \<in> {1, 2, 3}" and n: "(2::nat) \<le> 3" by simp_all
  show ?thesis by (rule basis_gradient_is_derivative [OF o n])
qed


text \<open>
  C8. For an order of 1, 2 or 3, \<open>xi_at_node\<close> gives -1 at node 0, +1 at node 1 and
  \<open>-1 + 2 (node - 1) / order\<close> at every node from 2 up to the order, and it stops the
  program (the exit after the node-number message) at every node beyond the order.
\<close>

theorem xi_at_node_spec:
  assumes "order \<in> {1, 2, 3}"
  shows "xi_at_node order 0 = Inr (- 1)
       \<and> xi_at_node order 1 = Inr 1
       \<and> (2 \<le> node \<and> node \<le> order \<longrightarrow>
            xi_at_node order node = Inr (- 1 + 2 * (real node - 1) / real order))
       \<and> (order < node \<longrightarrow> xi_at_node order node = Inl (NodeNumberExit node))"
  using assms by (auto simp add: xi_at_node_def)

theorem xi_at_node_spec_witness:
  "xi_at_node 3 0 = Inr (- 1) \<and> xi_at_node 3 1 = Inr 1
   \<and> xi_at_node 3 2 = Inr (- 1 / 3) \<and> xi_at_node 3 3 = Inr (1 / 3)
   \<and> xi_at_node 3 4 = Inl (NodeNumberExit 4)"
  using xi_at_node_spec [of 3 2] xi_at_node_spec [of 3 3] xi_at_node_spec [of 3 4]
  by simp

text \<open>
  C10. For an order other than 1, 2 and 3, \<open>basis_gradient\<close> returns 0 at every node
  and every \<open>xi\<close>, and does not stop the program.
\<close>

theorem basis_gradient_unsupported_order:
  assumes "order \<notin> {1, 2, 3}"
  shows "basis_gradient order node xi = Inr 0"
  using assms by (simp add: basis_gradient_def)

theorem basis_gradient_unsupported_order_witness:
  "(4::nat) \<notin> {1, 2, 3} \<and> basis_gradient 4 2 (1 / 2) = Inr 0
   \<and> basis_gradient 0 7 (- 3) = Inr 0"
  using basis_gradient_unsupported_order [of 4 2 "1 / 2"]
    basis_gradient_unsupported_order [of 0 7 "- 3"]
  by simp

section \<open>Boundary conditions and quadrature\<close>

lemma boundary_step_pure:
  assumes "g < length (nodeLocation s)"
  shows "boundary_step s g bv =
         Inr (if nodeLocation s ! g = L_m s \<and> prob s = 1 then bv(g \<mapsto> g2 s)
              else if nodeLocation s ! g = 0 then bv(g \<mapsto> g1 s) else bv)"
  using assms by (simp add: boundary_step_def vec_at_def Let_def)

lemma fold_boundary:
  "fold (\<lambda>g bv. if P g then bv(g \<mapsto> a) else if Q g then bv(g \<mapsto> b) else bv) [0..<n] bv0 =
     (\<lambda>g. if g < n \<and> P g then Some a else if g < n \<and> Q g then Some b else bv0 g)"
  by (induction n) (auto simp add: fun_eq_iff less_Suc_eq)

lemma define_boundary_conds_result:
  assumes "n_dofs s = length (nodeLocation s)"
  shows "define_boundary_conds s =
         Inr (s\<lparr>boundary_values := (\<lambda>g.
               if g < n_dofs s \<and> nodeLocation s ! g = L_m s \<and> prob s = 1 then Some (g2 s)
               else if g < n_dofs s \<and> nodeLocation s ! g = 0 then Some (g1 s)
               else boundary_values s g)\<rparr>)"
proof -
  have "for_loop [0..<n_dofs s] (boundary_step s) (boundary_values s) =
        Inr (fold (\<lambda>g bv. if nodeLocation s ! g = L_m s \<and> prob s = 1 then bv(g \<mapsto> g2 s)
              else if nodeLocation s ! g = 0 then bv(g \<mapsto> g1 s) else bv) [0..<n_dofs s] (boundary_values s))"
    by (rule for_loop_pure) (simp add: boundary_step_pure assms)
  then show ?thesis
    by (simp add: define_boundary_conds_def Let_def fold_boundary)
qed

text \<open>
  C5. Started with an empty constraint map, on a domain with \<open>L \<noteq> 0\<close> and with
  \<open>n_dofs\<close> node coordinates, \<open>define_boundary_conds\<close> returns, and the map then holds
  exactly: \<open>g1\<close> at every degree of freedom whose coordinate equals 0, and, in problem
  1 only, \<open>g2\<close> at every degree of freedom whose coordinate equals \<open>L\<close>. The test is
  equality of the coordinate with the end point; a degree of freedom with any other
  coordinate is not in the map.
\<close>

theorem define_boundary_conds_spec:
  assumes "boundary_values s = Map.empty"
    and "n_dofs s = length (nodeLocation s)"
    and "L_m s \<noteq> 0"
  shows "\<exists>s'. define_boundary_conds s = Inr s'
           \<and> (\<forall>g. boundary_values s' g =
                 (if g < n_dofs s \<and> nodeLocation s ! g = 0 then Some (g1 s)
                  else if g < n_dofs s \<and> nodeLocation s ! g = L_m s \<and> prob s = 1
                       then Some (g2 s)
                  else None))"
  using assms by (auto simp add: define_boundary_conds_result)

theorem define_boundary_conds_spec_witness:
  "\<exists>s'. define_boundary_conds example_state = Inr s'
      \<and> boundary_values s' 0 = Some 0 \<and> boundary_values s' 1 = None
      \<and> boundary_values s' 2 = Some 0.001 \<and> boundary_values s' 3 = None"
proof -
  have "boundary_values example_state = Map.empty"
    and "n_dofs example_state = length (nodeLocation example_state)"
    and "L_m example_state \<noteq> 0"
    by (simp_all add: example_state_def)
  from define_boundary_conds_spec [OF this]
  obtain s' where 1: "define_boundary_conds example_state = Inr s'"
    and 2: "\<And>g. boundary_values s' g =
                 (if g < n_dofs example_state \<and> nodeLocation example_state ! g = 0
                  then Some (g1 example_state)
                  else if g < n_dofs example_state
                          \<and> nodeLocation example_state ! g = L_m example_state
                          \<and> prob example_state = 1
                       then Some (g2 example_state)
                  else None)"
    by blast
  have "boundary_values s' 0 = Some 0" "boundary_values s' 1 = None"
    "boundary_values s' 2 = Some 0.001" "boundary_values s' 3 = None"
    unfolding 2 by (simp_all add: example_state_def)
  with 1 show ?thesis by blast
qed

lemma setup_system_returns:
  "\<exists>s'. setup_system dof_cells dof_coords s = Inr s'
      \<and> quadRule s' = 3
      \<and> quad_points s' = [- 0.7745966692414834, 0.0, 0.7745966692414834]
      \<and> quad_weight s' = [0.5555555555555557, 0.8888888888888888, 0.5555555555555557]
      \<and> nodeLocation s' = dof_coords \<and> n_dofs s' = length dof_coords
      \<and> cells s' = dof_cells"
  by (simp add: setup_system_def Let_def define_boundary_conds_result)

text \<open>
  C9. \<open>setup_system\<close> returns and installs the 3-point rule, whose weights, read as the
  decimal numbers written in the source, add up to \<open>2.0000000000000002\<close>: the length 2
  of the reference interval up to \<open>10\<^sup>-\<^sup>1\<^sup>5\<close>.
\<close>

theorem quad_weight_sum:
  "\<exists>s'. setup_system dof_cells dof_coords s = Inr s'
      \<and> quadRule s' = 3 \<and> length (quad_weight s') = 3
      \<and> sum_list (quad_weight s') = 2.0000000000000002
      \<and> \<bar>sum_list (quad_weight s') - 2\<bar> \<le> 1 / 10 ^ 15"
proof -
  obtain s' where 1: "setup_system dof_cells dof_coords s = Inr s'"
    and 2: "quadRule s' = 3"
    and 3: "quad_weight s' = [0.5555555555555557, 0.8888888888888888, 0.5555555555555557]"
    using setup_system_returns [of dof_cells dof_coords s] by blast
  have 4: "sum_list (quad_weight s') = 2.0000000000000002" unfolding 3 by simp
  have 5: "\<bar>sum_list (quad_weight s') - 2\<bar> \<le> 1 / 10 ^ 15" unfolding 4 by simp
  have 6: "length (quad_weight s') = 3" unfolding 3 by simp
  from 1 2 4 5 6 show ?thesis by blast
qed

section \<open>Configuration errors\<close>

lemma basis_function_node_beyond_order:
  assumes "order < node" and "1 < node"
  shows "basis_function order node xi = Inl (NodeNumberExit node)"
proof -
  have "[0..<order + 1] = 0 # [Suc 0..<order + 1]"
    by (simp add: upt_conv_Cons)
  moreover have "basis_function_step order node xi 0 1 = Inl (NodeNumberExit node)"
    using assms by (simp add: basis_function_step_def xi_at_node_def)
  ultimately show ?thesis
    by (simp add: basis_function_def)
qed

text \<open>
  C7, as the code has it. A problem number other than 1 and 2 makes the constructor
  stop the program with its message; with problem 1 or 2 the constructor returns an
  object for every order, which it stores unchecked. A local node beyond the order
  (and beyond 1) makes \<open>xi_at_node\<close>, and with it \<open>basis_function\<close>, stop the program
  with the node-number message.
\<close>

theorem configuration_errors:
  "(problem \<noteq> 1 \<and> problem \<noteq> 2 \<longrightarrow> FEM order problem mem = Inl ProblemNumberExit)
   \<and> (problem = 1 \<or> problem = 2 \<longrightarrow>
        (\<exists>s. FEM order problem mem = Inr s
             \<and> basisFunctionOrder s = order \<and> prob s = problem))
   \<and> (order < node \<and> 1 < node \<longrightarrow>
        xi_at_node order node = Inl (NodeNumberExit node)
        \<and> basis_function order node xi = Inl (NodeNumberExit node))"
  by (auto simp add: FEM_def Let_def xi_at_node_def basis_function_node_beyond_order)

theorem configuration_errors_witness:
  "FEM 3 5 example_state = Inl ProblemNumberExit
   \<and> (\<exists>s. FEM 3 2 example_state = Inr s \<and> basisFunctionOrder s = 3 \<and> prob s = 2)
   \<and> xi_at_node 3 4 = Inl (NodeNumberExit 4)
   \<and> basis_function 3 4 (1 / 2) = Inl (NodeNumberExit 4)"
  using configuration_errors [of 5 3 example_state 4 "1 / 2"]
    configuration_errors [of 2 3 example_state 4 "1 / 2"]
  by simp

text \<open>
  The order 4 is outside the supported range, and the constructor returns an object
  with it; \<open>basis_function\<close> and \<open>basis_gradient\<close> then compute without stopping, the
  latter even at the node 9 that the element does not have.
\<close>

theorem order_not_validated:
  "FEM 4 1 example_state \<noteq> Inl ProblemNumberExit
   \<and> \<not> isl (FEM 4 1 example_state)
   \<and> basisFunctionOrder (projr (FEM 4 1 example_state)) = 4
   \<and> basis_function 4 2 (- 1 / 2) = Inr 1
   \<and> basis_gradient 4 2 (1 / 2) = Inr 0
   \<and> basis_gradient 4 9 (1 / 2) = Inr 0"
  by (simp add: FEM_def Let_def basis_gradient_def basis_function_def
        basis_function_step_def xi_at_node_def upt_rec)

section \<open>Element assembly\<close>

lemma for_loop_inv:
  assumes "I a"
    and "\<And>i a. i \<in> set is \<Longrightarrow> I a \<Longrightarrow> \<exists>b. body i a = Inr b \<and> I b"
  shows "\<exists>b. for_loop is body a = Inr b \<and> I b"
  using assms
proof (induction "is" arbitrary: a)
  case Nil then show ?case by simp
next
  case (Cons i "is")
  from Cons.prems obtain b where b: "body i a = Inr b" "I b" by (meson list.set_intros(1))
  have "\<exists>c. for_loop is body b = Inr c \<and> I c"
    by (rule Cons.IH [OF b(2)]) (simp add: Cons.prems(2))
  with b show ?case by simp
qed

lemma for_range_pure:
  assumes "\<And>i a. i < n \<Longrightarrow> body i a = Inr (g i a)"
  shows "for_loop [0..<n] body a = Inr (fold g [0..<n] a)"
  by (rule for_loop_pure) (simp add: assms)

lemma for_range_inv:
  assumes "I a"
    and "\<And>i a. i < n \<Longrightarrow> I a \<Longrightarrow> \<exists>b. body i a = Inr b \<and> I b"
  shows "\<exists>b. for_loop [0..<n] body a = Inr b \<and> I b"
  using assms(1) by (rule for_loop_inv [where I = I]) (simp add: assms(2))

lemma dofs_per_cell_le: "i < dofs_per_cell s \<longleftrightarrow> i \<le> basisFunctionOrder s"
  by (auto simp add: dofs_per_cell_def)

lemma lessThan_dofs: "{..<dofs_per_cell s} = {..basisFunctionOrder s}"
  by (auto simp add: dofs_per_cell_def)

lemma fold_add_upt:
  "fold (\<lambda>i a. a + t i) [0..<n] (a0::real) = a0 + (\<Sum>i < n. t i)"
  by (induction n) simp_all

lemma fold_update_upt:
  assumes "A < length Fl"
  shows "fold (\<lambda>q Fl. Fl[A := Fl ! A + t q]) [0..<n] Fl = Fl[A := Fl ! A + (\<Sum>q < n. t q)]"
  using assms by (induction n) (simp_all add: add.assoc)

lemma mesh_ok_cell:
  assumes "mesh_ok s" and "c \<in> set (cells s)"
  shows "length c = basisFunctionOrder s + 1"
    and "\<And>B. B \<le> basisFunctionOrder s \<Longrightarrow> c ! B < length (nodeLocation s)"
    and "\<And>B. B \<le> basisFunctionOrder s \<Longrightarrow> c ! B < n_dofs s"
    and "1 \<le> basisFunctionOrder s"
  using assms by (auto simp add: mesh_ok_def dofs_per_cell_def list_all_iff)

lemma x_step_pure:
  assumes "mesh_ok s" and "c \<in> set (cells s)" and "B \<le> basisFunctionOrder s"
  shows "x_step s c xi B x =
         Inr (x + nodeLocation s ! (c ! B) * lagrange (basisFunctionOrder s) B xi)"
  using assms mesh_ok_cell [OF assms(1,2)]
  by (simp add: x_step_def vec_at_def basis_function_lagrange)

lemma x_loop:
  assumes "mesh_ok s" and "c \<in> set (cells s)"
  shows "for_loop [0..<dofs_per_cell s] (x_step s c xi) 0 = Inr (x_interp s c xi)"
proof -
  have "for_loop [0..<dofs_per_cell s] (x_step s c xi) 0 =
        Inr (fold (\<lambda>B x. x + nodeLocation s ! (c ! B) * lagrange (basisFunctionOrder s) B xi)
               [0..<dofs_per_cell s] 0)"
    by (rule for_range_pure) (simp only: dofs_per_cell_le x_step_pure [OF assms])
  then show ?thesis
    by (simp only: fold_add_upt x_interp_def lessThan_dofs add_0)
qed

lemma mesh_ok_quad:
  assumes "mesh_ok s" and "q < quadRule s"
  shows "q < length (quad_points s)" and "q < length (quad_weight s)"
  using assms by (simp_all add: mesh_ok_def)

lemma load_step_pure:
  assumes "mesh_ok s" and "c \<in> set (cells s)" and "A \<le> basisFunctionOrder s"
    and "q < quadRule s"
  shows "load_step s c h_e A q Fl =
         Inr (Fl[A := Fl ! A + h_e / 2 * lagrange (basisFunctionOrder s) A (quad_points s ! q)
                        * quad_weight s ! q * x_interp s c (quad_points s ! q)])"
  using mesh_ok_quad [OF assms(1,4)] assms(3)
  by (simp add: load_step_def vec_at_def x_loop [OF assms(1,2)] basis_function_lagrange)

lemma load_q_loop:
  assumes "mesh_ok s" and "c \<in> set (cells s)" and "A \<le> basisFunctionOrder s"
  shows "for_loop [0..<quadRule s] (load_step s c h_e A) Fl =
         Inr (fold (\<lambda>q Fl. Fl[A := Fl ! A
                 + h_e / 2 * lagrange (basisFunctionOrder s) A (quad_points s ! q)
                   * quad_weight s ! q * x_interp s c (quad_points s ! q)])
               [0..<quadRule s] Fl)"
  by (rule for_range_pure) (rule load_step_pure [OF assms])

lemma fold_fold_fill:
  assumes "k \<le> n"
  shows "fold (\<lambda>A Fl. fold (\<lambda>q Fl. Fl[A := Fl ! A + t A q]) [0..<m] Fl) [0..<k]
           (replicate n (0::real))
         = map (\<lambda>A. if A < k then (\<Sum>q < m. t A q) else 0) [0..<n]"
  using assms
proof (induction k)
  case 0 then show ?case by (simp add: map_replicate_const)
next
  case (Suc k)
  then have k: "k < n" and IH: "fold (\<lambda>A Fl. fold (\<lambda>q Fl. Fl[A := Fl ! A + t A q]) [0..<m] Fl) [0..<k]
           (replicate n (0::real))
         = map (\<lambda>A. if A < k then (\<Sum>q < m. t A q) else 0) [0..<n]"
    by simp_all
  show ?case
    using k by (simp add: IH fold_update_upt list_eq_iff_nth_eq nth_list_update less_Suc_eq)
qed

lemma load_vector_result:
  assumes "mesh_ok s" and "c \<in> set (cells s)"
  shows "load_vector s c (elem_length s c) =
         Inr (map (load_integral s c) [0..<dofs_per_cell s])"
proof -
  have "load_vector s c (elem_length s c) =
        Inr (fold (\<lambda>A Fl. fold (\<lambda>q Fl. Fl[A := Fl ! A
                 + elem_length s c / 2 * lagrange (basisFunctionOrder s) A (quad_points s ! q)
                   * quad_weight s ! q * x_interp s c (quad_points s ! q)])
               [0..<quadRule s] Fl) [0..<dofs_per_cell s] (replicate (dofs_per_cell s) 0))"
    unfolding load_vector_def
    by (rule for_range_pure) (simp only: dofs_per_cell_le load_q_loop [OF assms])
  also have "\<dots> = Inr (map (load_integral s c) [0..<dofs_per_cell s])"
    by (simp add: fold_fold_fill load_integral_def cong: map_cong)
  finally show ?thesis .
qed

lemma mesh_ok_ends:
  assumes "mesh_ok s" and "c \<in> set (cells s)"
  shows "vec_at c 0 = Inr (c ! 0)" and "vec_at c (Suc 0) = Inr (c ! Suc 0)"
    and "vec_at (nodeLocation s) (c ! 0) = Inr (nodeLocation s ! (c ! 0))"
    and "vec_at (nodeLocation s) (c ! Suc 0) = Inr (nodeLocation s ! (c ! Suc 0))"
    and "Suc 0 < length c"
  using mesh_ok_cell [OF assms] by (simp_all add: vec_at_def)

lemma neumann_result:
  assumes "mesh_ok s" and "c \<in> set (cells s)" and "length Fl = basisFunctionOrder s + 1"
  shows "neumann s c Fl =
         Inr (if prob s = 2 \<and> nodeLocation s ! (c ! 1) = L_m s
              then Fl[1 := Fl ! 1 + h_m s] else Fl)"
proof -
  have "vec_at Fl (Suc 0) = Inr (Fl ! Suc 0)"
    using mesh_ok_cell(4) [OF assms(1,2)] assms(3) by (simp add: vec_at_def)
  then show ?thesis
    by (simp add: neumann_def mesh_ok_ends [OF assms(1,2)])
qed

lemma assemble_element_unfold:
  assumes "mesh_ok s" and "c \<in> set (cells s)"
  shows "assemble_element s c KF =
         bind_err (load_vector s c (elem_length s c)) (\<lambda>Flocal0.
         bind_err (neumann s c Flocal0) (\<lambda>Flocal.
         bind_err (stiffness_matrix s (elem_length s c)) (\<lambda>Klocal.
           for_loop [0..<dofs_per_cell s] (scatter_step s c Flocal Klocal) KF)))"
  by (simp add: assemble_element_def mesh_ok_ends [OF assms] Let_def elem_length_def)

text \<open>
  C4. For a cell of a mesh in order, the local load vector that \<open>assemble_system\<close>
  builds and scatters has, at every local node, the distributed-load quadrature
  integral, and in addition the flux \<open>h\<close> at local node 1 exactly when the problem is 2
  and the coordinate of local node 1 equals \<open>L\<close>. In problem 1 nothing is added.
\<close>

theorem neumann_flux_spec:
  assumes "mesh_ok s" and "c \<in> set (cells s)"
  shows "\<exists>Flocal.
           bind_err (load_vector s c (elem_length s c)) (neumann s c) = Inr Flocal
         \<and> (\<forall>KF. assemble_element s c KF =
                bind_err (stiffness_matrix s (elem_length s c)) (\<lambda>Klocal.
                  for_loop [0..<dofs_per_cell s] (scatter_step s c Flocal Klocal) KF))
         \<and> length Flocal = basisFunctionOrder s + 1
         \<and> (\<forall>A \<le> basisFunctionOrder s.
               Flocal ! A = load_integral s c A
                 + (if A = 1 \<and> prob s = 2 \<and> nodeLocation s ! (c ! 1) = L_m s
                    then h_m s else 0))"
proof -
  define Fl0 where "Fl0 = map (load_integral s c) [0..<dofs_per_cell s]"
  define Fl where "Fl = (if prob s = 2 \<and> nodeLocation s ! (c ! 1) = L_m s
              then Fl0[1 := Fl0 ! 1 + h_m s] else Fl0)"
  have len0: "length Fl0 = basisFunctionOrder s + 1"
    by (simp add: Fl0_def dofs_per_cell_def)
  have lv: "load_vector s c (elem_length s c) = Inr Fl0"
    unfolding Fl0_def by (rule load_vector_result [OF assms])
  have nm: "neumann s c Fl0 = Inr Fl"
    unfolding Fl_def by (rule neumann_result [OF assms len0])
  have 1: "bind_err (load_vector s c (elem_length s c)) (neumann s c) = Inr Fl"
    by (simp add: lv nm)
  have 2: "\<forall>KF. assemble_element s c KF =
                bind_err (stiffness_matrix s (elem_length s c)) (\<lambda>Klocal.
                  for_loop [0..<dofs_per_cell s] (scatter_step s c Fl Klocal) KF)"
    by (simp add: assemble_element_unfold [OF assms] lv nm)
  have 3: "length Fl = basisFunctionOrder s + 1"
    using len0 by (simp add: Fl_def)
  have nth0: "\<And>A. A \<le> basisFunctionOrder s \<Longrightarrow> Fl0 ! A = load_integral s c A"
    by (simp add: Fl0_def dofs_per_cell_le)
  have 4: "\<forall>A \<le> basisFunctionOrder s.
               Fl ! A = load_integral s c A
                 + (if A = 1 \<and> prob s = 2 \<and> nodeLocation s ! (c ! 1) = L_m s
                    then h_m s else 0)"
    using len0 mesh_ok_cell(4) [OF assms]
    by (auto simp add: Fl_def nth_list_update nth0)
  from 1 2 3 4 show ?thesis by blast
qed

lemma mesh_ok_examples: "mesh_ok example_state" "mesh_ok neumann_state" "mesh_ok reversed_state"
  by (simp_all add: mesh_ok_def example_state_def neumann_state_def reversed_state_def
        dofs_per_cell_def)

theorem neumann_flux_spec_witness:
  "(\<exists>Flocal.
      bind_err (load_vector neumann_state [1, 2] (elem_length neumann_state [1, 2]))
        (neumann neumann_state [1, 2]) = Inr Flocal
      \<and> Flocal ! 1 = load_integral neumann_state [1, 2] 1 + 10000000000
      \<and> Flocal ! 0 = load_integral neumann_state [1, 2] 0)
   \<and> (\<exists>Flocal.
      bind_err (load_vector neumann_state [0, 1] (elem_length neumann_state [0, 1]))
        (neumann neumann_state [0, 1]) = Inr Flocal
      \<and> Flocal ! 1 = load_integral neumann_state [0, 1] 1)
   \<and> (\<exists>Flocal.
      bind_err (load_vector example_state [1, 2] (elem_length example_state [1, 2]))
        (neumann example_state [1, 2]) = Inr Flocal
      \<and> Flocal ! 1 = load_integral example_state [1, 2] 1)"
proof -
  have c: "[1, 2] \<in> set (cells neumann_state)" "[0, 1] \<in> set (cells neumann_state)"
    "[1, 2] \<in> set (cells example_state)"
    by (simp_all add: neumann_state_def example_state_def)
  have v: "basisFunctionOrder neumann_state = 1" "prob neumann_state = 2"
    "nodeLocation neumann_state ! ([1, 2] ! 1) = L_m neumann_state"
    "nodeLocation neumann_state ! ([0, 1] ! 1) \<noteq> L_m neumann_state"
    "h_m neumann_state = 10000000000"
    "basisFunctionOrder example_state = 1" "prob example_state = 1"
    by (simp_all add: neumann_state_def example_state_def)
  from neumann_flux_spec [OF mesh_ok_examples(2) c(1)]
  have 1: "\<exists>Flocal.
      bind_err (load_vector neumann_state [1, 2] (elem_length neumann_state [1, 2]))
        (neumann neumann_state [1, 2]) = Inr Flocal
      \<and> Flocal ! 1 = load_integral neumann_state [1, 2] 1 + 10000000000
      \<and> Flocal ! 0 = load_integral neumann_state [1, 2] 0"
    unfolding v by auto
  from neumann_flux_spec [OF mesh_ok_examples(2) c(2)]
  have 2: "\<exists>Flocal.
      bind_err (load_vector neumann_state [0, 1] (elem_length neumann_state [0, 1]))
        (neumann neumann_state [0, 1]) = Inr Flocal
      \<and> Flocal ! 1 = load_integral neumann_state [0, 1] 1"
    using v(4) unfolding v(1,2) by auto
  from neumann_flux_spec [OF mesh_ok_examples(1) c(3)]
  have 3: "\<exists>Flocal.
      bind_err (load_vector example_state [1, 2] (elem_length example_state [1, 2]))
        (neumann example_state [1, 2]) = Inr Flocal
      \<and> Flocal ! 1 = load_integral example_state [1, 2] 1"
    unfolding v by auto
  from 1 2 3 show ?thesis by (intro conjI)
qed

section \<open>Error evaluator\<close>

lemma mesh_ok_D:
  assumes "mesh_ok s" and "c \<in> set (cells s)" and "B \<le> basisFunctionOrder s"
  shows "c ! B < length (D_m s)"
  using assms mesh_ok_cell(3) [OF assms] by (simp add: mesh_ok_def)

lemma xu_step_pure:
  assumes "mesh_ok s" and "c \<in> set (cells s)" and "B \<le> basisFunctionOrder s"
  shows "xu_step s c xi B xu =
         Inr (fst xu + nodeLocation s ! (c ! B) * lagrange (basisFunctionOrder s) B xi,
              snd xu + D_m s ! (c ! B) * lagrange (basisFunctionOrder s) B xi)"
  using assms(3) mesh_ok_cell [OF assms(1,2)] mesh_ok_D [OF assms]
  by (simp add: xu_step_def vec_at_def basis_function_lagrange Let_def)

lemma fold_add2_upt:
  "fold (\<lambda>i xu. (fst xu + t i, snd xu + r i)) [0..<n] (a0::real, b0::real)
   = (a0 + (\<Sum>i < n. t i), b0 + (\<Sum>i < n. r i))"
  by (induction n) simp_all

lemma xu_loop:
  assumes "mesh_ok s" and "c \<in> set (cells s)"
  shows "for_loop [0..<dofs_per_cell s] (xu_step s c xi) (0, 0)
         = Inr (x_interp s c xi, u_interp s c xi)"
proof -
  have "for_loop [0..<dofs_per_cell s] (xu_step s c xi) (0, 0) =
        Inr (fold (\<lambda>B xu. (fst xu + nodeLocation s ! (c ! B) * lagrange (basisFunctionOrder s) B xi,
              snd xu + D_m s ! (c ! B) * lagrange (basisFunctionOrder s) B xi))
               [0..<dofs_per_cell s] (0, 0))"
    by (rule for_range_pure) (simp only: dofs_per_cell_le xu_step_pure [OF assms])
  then show ?thesis
    by (simp only: fold_add2_upt x_interp_def u_interp_def lessThan_dofs add_0)
qed

lemma l2_step_pure:
  assumes "mesh_ok s" and "c \<in> set (cells s)" and "q < quadRule s"
    and "u_exact s (x_interp s c (quad_points s ! q)) = Some ue"
  shows "l2_step s c h_e q l2norm =
         Inr (l2norm + (u_interp s c (quad_points s ! q) - ue)\<^sup>2 * (h_e / 2) * quad_weight s ! q)"
  using mesh_ok_quad [OF assms(1,3)] assms(4)
  by (simp add: l2_step_def vec_at_def xu_loop [OF assms(1,2)] power2_eq_square)

lemma u_exact_Some:
  assumes "prob s = 1 \<or> prob s = 2"
  shows "u_exact s x = Some (the (u_exact s x))"
  using assms by (auto simp add: u_exact_def Let_def)

lemma l2_element_pure:
  assumes "mesh_ok s" and "c \<in> set (cells s)" and "prob s = 1 \<or> prob s = 2"
  shows "l2_element s c l2norm =
         Inr (l2norm + squared_error s (\<lambda>x. the (u_exact s x)) c)"
proof -
  have "for_loop [0..<quadRule s] (l2_step s c (elem_length s c)) l2norm =
        Inr (fold (\<lambda>q a. a + (u_interp s c (quad_points s ! q)
                      - the (u_exact s (x_interp s c (quad_points s ! q))))\<^sup>2
                    * (elem_length s c / 2) * quad_weight s ! q) [0..<quadRule s] l2norm)"
    by (rule for_range_pure)
       (rule l2_step_pure [OF assms(1,2) _ u_exact_Some [OF assms(3)]])
  then show ?thesis
    by (simp add: l2_element_def mesh_ok_ends [OF assms(1,2)] Let_def elem_length_def
          fold_add_upt squared_error_def)
qed

lemma fold_add_list:
  "fold (\<lambda>c a. a + t c) cs (a0::real) = a0 + sum_list (map t cs)"
  by (induction cs arbitrary: a0) simp_all

lemma l2_total:
  assumes "mesh_ok s" and "prob s = 1 \<or> prob s = 2"
  shows "for_loop (cells s) (l2_element s) 0 =
         Inr (\<Sum>c \<leftarrow> cells s. squared_error s (\<lambda>x. the (u_exact s x)) c)"
proof -
  have "for_loop (cells s) (l2_element s) 0 =
        Inr (fold (\<lambda>c a. a + squared_error s (\<lambda>x. the (u_exact s x)) c) (cells s) 0)"
    by (rule for_loop_pure) (rule l2_element_pure [OF assms(1) _ assms(2)])
  then show ?thesis by (simp add: fold_add_list)
qed

lemma squared_error_nonneg:
  assumes "mesh_ok s" and "0 \<le> elem_length s c" and "\<forall>w \<in> set (quad_weight s). 0 \<le> w"
  shows "0 \<le> squared_error s ue c"
  unfolding squared_error_def
proof (rule sum_nonneg)
  fix q assume "q \<in> {..<quadRule s}"
  then have "quad_weight s ! q \<in> set (quad_weight s)"
    using assms(1) by (simp add: mesh_ok_def)
  then have "0 \<le> quad_weight s ! q" using assms(3) by blast
  then show "0 \<le> (u_interp s c (quad_points s ! q) - ue (x_interp s c (quad_points s ! q)))\<^sup>2
              * (elem_length s c / 2) * quad_weight s ! q"
    using assms(2) by simp
qed

lemma u_exact_closed_forms:
  "prob s = 1 \<Longrightarrow>
     (\<lambda>x. the (u_exact s x)) =
     (\<lambda>x. - x * x * x * 100000000000 / (6 * E_m s)
          + (g2 s - g1 s + L_m s * L_m s * L_m s * 100000000000 / (6 * E_m s)) / L_m s * x
          + g1 s)"
  "prob s = 2 \<Longrightarrow>
     (\<lambda>x. the (u_exact s x)) =
     (\<lambda>x. - x * x * x / (6 * E_m s) + (h_m s + 0.5 * L_m s * L_m s) * x + g1 s)"
  by (simp_all add: u_exact_def u_exact_prob1_def u_exact_prob2_def Let_def)

lemma c_sqrt_nonneg: "0 \<le> t \<Longrightarrow> c_sqrt t = Some (sqrt t)"
  by (simp add: c_sqrt_def)

text \<open>
  C3. On a mesh in order, with \<open>E \<noteq> 0\<close> and \<open>L \<noteq> 0\<close>, \<open>l2norm_of_error\<close> returns the square
  root (of \<open><cmath>\<close>) of the sum, over the cells and the quadrature points \<open>q\<close>, of
  \<open>(u\<^sub>h - u\<^sub>e\<^sub>x\<^sub>a\<^sub>c\<^sub>t(x))\<^sup>2 (h\<^sub>e / 2) w\<^sub>q\<close>, where \<open>x\<close> and \<open>u\<^sub>h\<close> interpolate the node coordinates
  and the solution vector \<open>D\<close> with the values that \<open>basis_function\<close> returns, the
  Lagrange products, and where \<open>u\<^sub>e\<^sub>x\<^sub>a\<^sub>c\<^sub>t\<close> is, in problem 1,
  \<open>-x\<^sup>3 10\<^sup>1\<^sup>1 / (6 E) + ((g2 - g1 + L\<^sup>3 10\<^sup>1\<^sup>1 / (6 E)) / L) x + g1\<close> and, in problem 2,
  \<open>-x\<^sup>3 / (6 E) + (h + 0.5 L\<^sup>2) x + g1\<close>. With no negative cell length and no negative
  weight the sum is not negative and the result is its real square root.
\<close>

theorem l2norm_of_error_spec:
  assumes "mesh_ok s" and "E_m s \<noteq> 0" and "L_m s \<noteq> 0"
  shows "(\<forall>B \<le> basisFunctionOrder s. \<forall>xi.
            basis_function (basisFunctionOrder s) B xi
              = Inr (lagrange (basisFunctionOrder s) B xi))
       \<and> (prob s = 1 \<longrightarrow>
            l2norm_of_error s =
              Inr (c_sqrt (\<Sum>c \<leftarrow> cells s. squared_error s
                (\<lambda>x. - x * x * x * 100000000000 / (6 * E_m s)
                     + (g2 s - g1 s + L_m s * L_m s * L_m s * 100000000000 / (6 * E_m s))
                       / L_m s * x
                     + g1 s) c)))
       \<and> (prob s = 2 \<longrightarrow>
            l2norm_of_error s =
              Inr (c_sqrt (\<Sum>c \<leftarrow> cells s. squared_error s
                (\<lambda>x. - x * x * x / (6 * E_m s) + (h_m s + 0.5 * L_m s * L_m s) * x + g1 s)
                c)))
       \<and> ((\<forall>c \<in> set (cells s). 0 \<le> elem_length s c)
            \<and> (\<forall>w \<in> set (quad_weight s). 0 \<le> w) \<longrightarrow>
            (prob s = 1 \<longrightarrow>
              l2norm_of_error s =
                Inr (Some (sqrt (\<Sum>c \<leftarrow> cells s. squared_error s
                  (\<lambda>x. - x * x * x * 100000000000 / (6 * E_m s)
                       + (g2 s - g1 s + L_m s * L_m s * L_m s * 100000000000 / (6 * E_m s))
                         / L_m s * x
                       + g1 s) c))))
            \<and> (prob s = 2 \<longrightarrow>
              l2norm_of_error s =
                Inr (Some (sqrt (\<Sum>c \<leftarrow> cells s. squared_error s
                  (\<lambda>x. - x * x * x / (6 * E_m s) + (h_m s + 0.5 * L_m s * L_m s) * x + g1 s)
                  c)))))"
proof -
  have basis: "\<forall>B \<le> basisFunctionOrder s. \<forall>xi.
            basis_function (basisFunctionOrder s) B xi
              = Inr (lagrange (basisFunctionOrder s) B xi)"
    by (simp add: basis_function_lagrange)
  have total: "prob s = 1 \<or> prob s = 2 \<Longrightarrow>
      l2norm_of_error s =
        Inr (c_sqrt (\<Sum>c \<leftarrow> cells s. squared_error s (\<lambda>x. the (u_exact s x)) c))"
    by (simp add: l2norm_of_error_def l2_total [OF assms(1)])
  have nonneg: "\<And>ue. (\<forall>c \<in> set (cells s). 0 \<le> elem_length s c)
            \<and> (\<forall>w \<in> set (quad_weight s). 0 \<le> w) \<Longrightarrow>
            0 \<le> (\<Sum>c \<leftarrow> cells s. squared_error s ue c)"
    by (rule sum_list_nonneg) (use assms(1) in \<open>auto intro: squared_error_nonneg\<close>)
  have one: "prob s = 1 \<Longrightarrow>
            l2norm_of_error s =
              Inr (c_sqrt (\<Sum>c \<leftarrow> cells s. squared_error s
                (\<lambda>x. - x * x * x * 100000000000 / (6 * E_m s)
                     + (g2 s - g1 s + L_m s * L_m s * L_m s * 100000000000 / (6 * E_m s))
                       / L_m s * x
                     + g1 s) c))"
    using total u_exact_closed_forms(1) [of s] by simp
  have two: "prob s = 2 \<Longrightarrow>
            l2norm_of_error s =
              Inr (c_sqrt (\<Sum>c \<leftarrow> cells s. squared_error s
                (\<lambda>x. - x * x * x / (6 * E_m s) + (h_m s + 0.5 * L_m s * L_m s) * x + g1 s)
                c))"
    using total u_exact_closed_forms(2) [of s] by simp
  show ?thesis
    using basis one two by (auto simp add: c_sqrt_nonneg [OF nonneg])
qed

theorem l2norm_of_error_spec_witness:
  "l2norm_of_error example_state =
     Inr (Some (sqrt (\<Sum>c \<leftarrow> cells example_state. squared_error example_state
       (\<lambda>x. - x * x * x * 100000000000 / (6 * 100000000000)
            + (0.001 - 0 + 0.1 * 0.1 * 0.1 * 100000000000 / (6 * 100000000000)) / 0.1 * x
            + 0) c)))
   \<and> l2norm_of_error neumann_state =
     Inr (Some (sqrt (\<Sum>c \<leftarrow> cells neumann_state. squared_error neumann_state
       (\<lambda>x. - x * x * x / (6 * 100000000000) + (10000000000 + 0.5 * 0.1 * 0.1) * x + 0)
       c)))
   \<and> basis_function 1 0 (1 / 2) = Inr (lagrange 1 0 (1 / 2))"
proof -
  have v: "prob example_state = 1" "E_m example_state = 100000000000"
    "L_m example_state = 0.1" "g1 example_state = 0" "g2 example_state = 0.001"
    "basisFunctionOrder example_state = 1"
    by (simp_all add: example_state_def)
  have w: "prob neumann_state = 2" "E_m neumann_state = 100000000000"
    "L_m neumann_state = 0.1" "g1 neumann_state = 0" "h_m neumann_state = 10000000000"
    by (simp_all add: neumann_state_def example_state_def)
  have e: "E_m example_state \<noteq> 0" "L_m example_state \<noteq> 0"
    "E_m neumann_state \<noteq> 0" "L_m neumann_state \<noteq> 0"
    by (simp_all add: neumann_state_def example_state_def)
  have n: "(\<forall>c \<in> set (cells example_state). 0 \<le> elem_length example_state c)
            \<and> (\<forall>w \<in> set (quad_weight example_state). 0 \<le> w)"
    "(\<forall>c \<in> set (cells neumann_state). 0 \<le> elem_length neumann_state c)
            \<and> (\<forall>w \<in> set (quad_weight neumann_state). 0 \<le> w)"
    by (simp_all add: neumann_state_def example_state_def elem_length_def)
  note t1 = l2norm_of_error_spec [OF mesh_ok_examples(1) e(1,2)]
  note t2 = l2norm_of_error_spec [OF mesh_ok_examples(2) e(3,4)]
  from t1 n(1) v(1) have 1: "l2norm_of_error example_state =
     Inr (Some (sqrt (\<Sum>c \<leftarrow> cells example_state. squared_error example_state
       (\<lambda>x. - x * x * x * 100000000000 / (6 * 100000000000)
            + (0.001 - 0 + 0.1 * 0.1 * 0.1 * 100000000000 / (6 * 100000000000)) / 0.1 * x
            + 0) c)))"
    unfolding v(2-5) by blast
  from t2 n(2) w(1) have 2: "l2norm_of_error neumann_state =
     Inr (Some (sqrt (\<Sum>c \<leftarrow> cells neumann_state. squared_error neumann_state
       (\<lambda>x. - x * x * x / (6 * 100000000000) + (10000000000 + 0.5 * 0.1 * 0.1) * x + 0)
       c)))"
    unfolding w(2-5) by blast
  from t1 have "\<forall>B \<le> 1. \<forall>xi. basis_function 1 B xi = Inr (lagrange 1 B xi)"
    unfolding v(6) by blast
  then have 3: "basis_function 1 0 (1 / 2) = Inr (lagrange 1 0 (1 / 2))" by blast
  from 1 2 3 show ?thesis by (intro conjI)
qed

section \<open>Assembly of the global system\<close>

lemma for_range_sim:
  assumes "I a"
    and "\<And>i a. i < n \<Longrightarrow> I a \<Longrightarrow> \<exists>b. body i a = Inr b \<and> I b \<and> p b = g i (p a)"
  shows "\<exists>b. for_loop [0..<n] body a = Inr b \<and> I b \<and> p b = fold g [0..<n] (p a)"
  using assms(2)
proof (induction n)
  case 0 then show ?case using assms(1) by simp
next
  case (Suc n)
  then obtain b where b: "for_loop [0..<n] body a = Inr b" "I b" "p b = fold g [0..<n] (p a)"
    by (metis less_Suc_eq)
  from Suc.prems [OF _ b(2), of n] obtain b' where
    b': "body n b = Inr b'" "I b'" "p b' = g n (p b)" by auto
  have app: "\<And>xs ys a. for_loop (xs @ ys) body a = bind_err (for_loop xs body a) (for_loop ys body)"
  proof -
    fix xs ys a show "for_loop (xs @ ys) body a = bind_err (for_loop xs body a) (for_loop ys body)"
      by (induction xs arbitrary: a) (simp_all add: bind_err_def split: sum.splits)
  qed
  show ?case using b b' by (simp add: app)
qed

lemma for_list_sim:
  assumes "I a"
    and "\<And>i a. i \<in> set is \<Longrightarrow> I a \<Longrightarrow> \<exists>b. body i a = Inr b \<and> I b \<and> p b = g i (p a)"
  shows "\<exists>b. for_loop is body a = Inr b \<and> I b \<and> p b = fold g is (p a)"
  using assms
proof (induction "is" arbitrary: a)
  case Nil then show ?case by simp
next
  case (Cons i "is")
  from Cons.prems(2) [OF _ Cons.prems(1), of i] obtain b where
    b: "body i a = Inr b" "I b" "p b = g i (p a)" by auto
  have "\<exists>c. for_loop is body b = Inr c \<and> I c \<and> p c = fold g is (p b)"
    by (rule Cons.IH [OF b(2)]) (simp add: Cons.prems(2))
  with b show ?case by simp
qed

lemma basis_gradient_returns:
  assumes "1 \<le> order" and "A \<le> order"
  shows "\<exists>g. basis_gradient order A xi = Inr g"
proof -
  consider "order = Suc 0" | "order = 2" | "order = 3" | "order \<notin> {1, 2, 3}"
    by auto
  then show ?thesis
  proof cases
    case 1 with assms(2) gradient_derivative1 [of A xi] show ?thesis by auto
  next
    case 2 with assms(2) gradient_derivative2 [of A xi] show ?thesis by auto
  next
    case 3 with assms(2) gradient_derivative3 [of A xi] show ?thesis by auto
  next
    case 4 then show ?thesis by (simp add: basis_gradient_def)
  qed
qed

lemma stiffness_step_returns:
  assumes "mesh_ok s" and "A \<le> basisFunctionOrder s" and "B \<le> basisFunctionOrder s"
    and "q < quadRule s"
  shows "\<exists>Kl'. stiffness_step s h_e A B q Kl = Inr Kl'"
proof -
  have o: "1 \<le> basisFunctionOrder s" using assms(1) by (simp add: mesh_ok_def)
  obtain dA where dA: "basis_gradient (basisFunctionOrder s) A (quad_points s ! q) = Inr dA"
    using basis_gradient_returns [OF o assms(2)] by blast
  obtain dB where dB: "basis_gradient (basisFunctionOrder s) B (quad_points s ! q) = Inr dB"
    using basis_gradient_returns [OF o assms(3)] by blast
  show ?thesis
    using mesh_ok_quad [OF assms(1,4)]
    by (simp add: stiffness_step_def vec_at_def dA dB)
qed

lemma for_range_returns:
  assumes "\<And>i a. i < n \<Longrightarrow> \<exists>b. body i a = Inr b"
  shows "\<exists>b. for_loop [0..<n] body a = Inr b"
proof -
  have "\<exists>b. for_loop [0..<n] body a = Inr b \<and> True"
    by (rule for_range_inv [where I = "\<lambda>_. True"]) (simp_all add: assms)
  then show ?thesis by simp
qed

lemma stiffness_matrix_returns:
  assumes "mesh_ok s"
  shows "\<exists>Kl. stiffness_matrix s h_e = Inr Kl"
  unfolding stiffness_matrix_def
proof (rule for_range_returns)
  fix A Kl assume A: "A < dofs_per_cell s"
  show "\<exists>Kl'. for_loop [0..<dofs_per_cell s]
               (\<lambda>B. for_loop [0..<quadRule s] (stiffness_step s h_e A B)) Kl = Inr Kl'"
  proof (rule for_range_returns)
    fix B Kl assume B: "B < dofs_per_cell s"
    show "\<exists>Kl'. for_loop [0..<quadRule s] (stiffness_step s h_e A B) Kl = Inr Kl'"
    proof (rule for_range_returns)
      fix q Kl assume "q < quadRule s"
      then show "\<exists>Kl'. stiffness_step s h_e A B q Kl = Inr Kl'"
        using A B by (simp only: dofs_per_cell_le stiffness_step_returns [OF assms])
    qed
  qed
qed

lemma fold_const: "fold (\<lambda>_ x. x) xs a = a"
  by (induction xs) simp_all

lemma mesh_ok_index:
  assumes "mesh_ok s" and "c \<in> set (cells s)" and "A \<le> basisFunctionOrder s"
  shows "vec_at c A = Inr (c ! A)" and "c ! A < n_dofs s"
  using mesh_ok_cell [OF assms(1,2)] assms(3) by (simp_all add: vec_at_def)

lemma scatter_K_returns:
  assumes "mesh_ok s" and "c \<in> set (cells s)"
    and "A \<le> basisFunctionOrder s" and "B \<le> basisFunctionOrder s"
  shows "\<exists>KF'. scatter_K s c Kl A B KF = Inr KF' \<and> True \<and> snd KF' = snd KF"
  by (simp add: scatter_K_def mesh_ok_index [OF assms(1,2,3)] mesh_ok_index [OF assms(1,2,4)])

lemma scatter_step_returns:
  assumes "mesh_ok s" and "c \<in> set (cells s)" and "A \<le> basisFunctionOrder s"
    and "length Fl = basisFunctionOrder s + 1" and "length (snd KF) = n_dofs s"
  shows "\<exists>KF'. scatter_step s c Fl Kl A KF = Inr KF'
           \<and> length (snd KF') = n_dofs s
           \<and> snd KF' = (snd KF)[c ! A := snd KF ! (c ! A) + Fl ! A]"
proof -
  let ?F' = "(snd KF)[c ! A := snd KF ! (c ! A) + Fl ! A]"
  have 1: "vec_at (snd KF) (c ! A) = Inr (snd KF ! (c ! A))"
    using mesh_ok_index(2) [OF assms(1,2,3)] assms(5) by (simp add: vec_at_def)
  have 2: "vec_at Fl A = Inr (Fl ! A)"
    using assms(3,4) by (simp add: vec_at_def)
  have "\<exists>KF'. for_loop [0..<dofs_per_cell s] (scatter_K s c Kl A) (fst KF, ?F') = Inr KF'
           \<and> True \<and> snd KF' = fold (\<lambda>_ x. x) [0..<dofs_per_cell s] (snd (fst KF, ?F'))"
    by (rule for_range_sim [where I = "\<lambda>_. True"])
       (simp_all only: dofs_per_cell_le scatter_K_returns [OF assms(1,2,3)])
  then obtain KF' where
    "for_loop [0..<dofs_per_cell s] (scatter_K s c Kl A) (fst KF, ?F') = Inr KF'"
    "snd KF' = ?F'"
    by (auto simp add: fold_const)
  then show ?thesis
    using assms(5) by (simp add: scatter_step_def mesh_ok_index(1) [OF assms(1,2,3)] 1 2)
qed

lemma local_load_result:
  assumes "mesh_ok s" and "c \<in> set (cells s)"
  shows "bind_err (load_vector s c (elem_length s c)) (neumann s c) = Inr (local_load s c)"
    and "length (local_load s c) = basisFunctionOrder s + 1"
proof -
  have len0: "length (map (load_integral s c) [0..<dofs_per_cell s]) = basisFunctionOrder s + 1"
    by (simp add: dofs_per_cell_def)
  show "bind_err (load_vector s c (elem_length s c)) (neumann s c) = Inr (local_load s c)"
    by (simp add: load_vector_result [OF assms] neumann_result [OF assms len0]
          local_load_def Let_def)
  show "length (local_load s c) = basisFunctionOrder s + 1"
    by (simp add: local_load_def Let_def dofs_per_cell_def)
qed

lemma assemble_element_returns:
  assumes "mesh_ok s" and "c \<in> set (cells s)" and "length (snd KF) = n_dofs s"
  shows "\<exists>KF'. assemble_element s c KF = Inr KF'
           \<and> length (snd KF') = n_dofs s
           \<and> snd KF' = scatter_load s c (snd KF)"
proof -
  obtain Kl where Kl: "stiffness_matrix s (elem_length s c) = Inr Kl"
    using stiffness_matrix_returns [OF assms(1)] by blast
  have lv: "load_vector s c (elem_length s c) = Inr (map (load_integral s c) [0..<dofs_per_cell s])"
    by (rule load_vector_result [OF assms(1,2)])
  have nm: "neumann s c (map (load_integral s c) [0..<dofs_per_cell s]) = Inr (local_load s c)"
    using local_load_result(1) [OF assms(1,2)] by (simp add: lv)
  have eq: "assemble_element s c KF =
        for_loop [0..<dofs_per_cell s] (scatter_step s c (local_load s c) Kl) KF"
    by (simp add: assemble_element_unfold [OF assms(1,2)] lv nm Kl)
  have "\<exists>KF'. for_loop [0..<dofs_per_cell s] (scatter_step s c (local_load s c) Kl) KF = Inr KF'
           \<and> length (snd KF') = n_dofs s
           \<and> snd KF' = fold (\<lambda>A Fg. Fg[c ! A := Fg ! (c ! A) + local_load s c ! A])
                          [0..<dofs_per_cell s] (snd KF)"
    using assms(3)
    by (rule for_range_sim [where I = "\<lambda>KF. length (snd KF) = n_dofs s"])
       (simp only: dofs_per_cell_le
          scatter_step_returns [OF assms(1,2) _ local_load_result(2) [OF assms(1,2)]])
  then show ?thesis by (simp add: eq scatter_load_def)
qed

lemma assemble_elements_returns:
  assumes "mesh_ok s"
  shows "\<exists>s'. assemble_elements s = Inr s'
           \<and> F_m s' = fold (scatter_load s) (cells s) (replicate (n_dofs s) 0)"
proof -
  have len: "length (F_m s) = n_dofs s" using assms by (simp add: mesh_ok_def)
  have "\<exists>KF'. for_loop (cells s) (assemble_element s) (\<lambda>i j. 0, replicate (n_dofs s) 0) = Inr KF'
           \<and> length (snd KF') = n_dofs s
           \<and> snd KF' = fold (scatter_load s) (cells s)
                          (snd ((\<lambda>i j. 0) :: nat \<Rightarrow> nat \<Rightarrow> real, replicate (n_dofs s) (0::real)))"
  proof (rule for_list_sim [where I = "\<lambda>KF. length (snd KF) = n_dofs s" and p = snd
            and g = "scatter_load s"])
    show "length (snd ((\<lambda>i j. 0) :: nat \<Rightarrow> nat \<Rightarrow> real, replicate (n_dofs s) (0::real))) = n_dofs s"
      by simp
    fix c and KF :: global_system
    assume "c \<in> set (cells s)" "length (snd KF) = n_dofs s"
    then show "\<exists>KF'. assemble_element s c KF = Inr KF' \<and> length (snd KF') = n_dofs s
                 \<and> snd KF' = scatter_load s c (snd KF)"
      by (rule assemble_element_returns [OF assms])
  qed
  then show ?thesis by (auto simp add: assemble_elements_def len)
qed

text \<open>
  C6, as the code has it. \<open>assemble_system\<close> computes the cell length as a difference
  and never tests it: on every mesh in order whose cells have a length other than 0,
  negative lengths included, the loop over the cells runs to its end, the local load
  vector of every cell is added into \<open>F\<close>, and the boundary values are then applied.
  (A cell of length 0 makes \<open>2. / h_e\<close> infinite in the program; nothing is said of it.)
\<close>

theorem assemble_system_no_length_check:
  assumes "mesh_ok s" and "\<forall>c \<in> set (cells s). elem_length s c \<noteq> 0"
  shows "\<exists>s'. assemble_elements s = Inr s'
           \<and> F_m s' = fold (scatter_load s) (cells s) (replicate (n_dofs s) 0)
           \<and> assemble_system apply_boundary_values s
               = Inr (apply_boundary_values (boundary_values s') s')"
proof -
  obtain s' where 1: "assemble_elements s = Inr s'"
    and 2: "F_m s' = fold (scatter_load s) (cells s) (replicate (n_dofs s) 0)"
    using assemble_elements_returns [OF assms(1)] by blast
  have "assemble_system apply_boundary_values s
               = Inr (apply_boundary_values (boundary_values s') s')"
    by (simp add: assemble_system_def 1)
  with 1 2 show ?thesis by blast
qed

lemma reversed_load:
  "fold (scatter_load reversed_state) (cells reversed_state)
     (replicate (n_dofs reversed_state) 0) ! 0 < 0"
  by (simp add: reversed_state_def example_state_def scatter_load_def local_load_def
        dofs_per_cell_def load_integral_def x_interp_def elem_length_def lagrange_S
        sum_le3 numeral_3_eq_3 upt_rec Let_def)

theorem assemble_system_no_length_check_witness:
  "elem_length reversed_state [1, 0] < 0
   \<and> (\<exists>s'. assemble_elements reversed_state = Inr s'
      \<and> F_m s' = fold (scatter_load reversed_state) (cells reversed_state)
                   (replicate (n_dofs reversed_state) 0)
      \<and> assemble_system (\<lambda>bv s. s) reversed_state = Inr s')"
proof -
  have nz: "\<forall>c \<in> set (cells reversed_state). elem_length reversed_state c \<noteq> 0"
    by (simp add: reversed_state_def example_state_def elem_length_def)
  have neg: "elem_length reversed_state [1, 0] < 0"
    by (simp add: reversed_state_def example_state_def elem_length_def)
  show ?thesis
    using assemble_system_no_length_check [OF mesh_ok_examples(3) nz, of "\<lambda>bv s. s"] neg
    by simp
qed

text \<open>
  The first cell of \<open>reversed_state\<close> has the length \<open>-0.05\<close>; the assembly nevertheless
  returns, and the entry of \<open>F\<close> at the degree of freedom 0, which only this cell
  touches, is negative: the contribution of the cell has been scattered.
\<close>

theorem negative_length_assembled:
  "[1, 0] \<in> set (cells reversed_state)
   \<and> elem_length reversed_state [1, 0] < 0
   \<and> \<not> isl (assemble_elements reversed_state)
   \<and> F_m (projr (assemble_elements reversed_state)) ! 0 < 0"
proof -
  obtain s' where 1: "assemble_elements reversed_state = Inr s'"
    and 2: "F_m s' = fold (scatter_load reversed_state) (cells reversed_state)
                   (replicate (n_dofs reversed_state) 0)"
    using assemble_elements_returns [OF mesh_ok_examples(3)] by blast
  have 3: "F_m s' ! 0 < 0" unfolding 2 by (rule reversed_load)
  have 4: "[1, 0] \<in> set (cells reversed_state)"
    and 5: "elem_length reversed_state [1, 0] < 0"
    by (simp_all add: reversed_state_def example_state_def elem_length_def)
  from 1 3 4 5 show ?thesis by simp
qed

end
